theory Spec2Isabelle
  imports Complex_Main
begin

section \<open>Numeric values of the working precision\<close>

text \<open>
  The routines of \<^verbatim>\<open>util_similarity.py\<close> cast their inputs to \<^verbatim>\<open>tf.float32\<close> and work on
  values of that type. A value is a real number or one of the IEEE special values. Every
  arithmetic operation computes the exact real result and hands it to a rounding function
  \<open>rnd\<close>, which the whole development takes as a parameter: with \<open>exact\<close> the operations
  are those of exact arithmetic, with \<open>float32\<close> they are those of the binary32 format
  (round to nearest, ties to even, with subnormal numbers and overflow to infinity). Zero
  carries no sign; the only divisors the routines use are vector norms, whose zero is the
  positive one, so a nonzero finite value divided by zero keeps its own sign.
\<close>

datatype fl = Fin real | PInf | NInf | NaN

fun is_fin :: "fl \<Rightarrow> bool" where
  "is_fin (Fin a) = True"
| "is_fin _ = False"

fun val :: "fl \<Rightarrow> real" where
  "val (Fin a) = a"
| "val _ = 0"

fun fl_neg :: "fl \<Rightarrow> fl" where
  "fl_neg (Fin a) = Fin (- a)"
| "fl_neg PInf = NInf"
| "fl_neg NInf = PInf"
| "fl_neg NaN = NaN"

fun fl_add :: "(real \<Rightarrow> fl) \<Rightarrow> fl \<Rightarrow> fl \<Rightarrow> fl" where
  "fl_add rnd (Fin a) (Fin b) = rnd (a + b)"
| "fl_add rnd NaN _ = NaN"
| "fl_add rnd _ NaN = NaN"
| "fl_add rnd PInf NInf = NaN"
| "fl_add rnd NInf PInf = NaN"
| "fl_add rnd PInf _ = PInf"
| "fl_add rnd NInf _ = NInf"
| "fl_add rnd _ PInf = PInf"
| "fl_add rnd _ NInf = NInf"

definition fl_sub :: "(real \<Rightarrow> fl) \<Rightarrow> fl \<Rightarrow> fl \<Rightarrow> fl" where
  "fl_sub rnd x y = fl_add rnd x (fl_neg y)"

fun fl_mul :: "(real \<Rightarrow> fl) \<Rightarrow> fl \<Rightarrow> fl \<Rightarrow> fl" where
  "fl_mul rnd (Fin a) (Fin b) = rnd (a * b)"
| "fl_mul rnd NaN _ = NaN"
| "fl_mul rnd _ NaN = NaN"
| "fl_mul rnd (Fin a) PInf = (if a = 0 then NaN else if 0 < a then PInf else NInf)"
| "fl_mul rnd (Fin a) NInf = (if a = 0 then NaN else if 0 < a then NInf else PInf)"
| "fl_mul rnd PInf (Fin b) = (if b = 0 then NaN else if 0 < b then PInf else NInf)"
| "fl_mul rnd NInf (Fin b) = (if b = 0 then NaN else if 0 < b then NInf else PInf)"
| "fl_mul rnd PInf PInf = PInf"
| "fl_mul rnd PInf NInf = NInf"
| "fl_mul rnd NInf PInf = NInf"
| "fl_mul rnd NInf NInf = PInf"

fun fl_div :: "(real \<Rightarrow> fl) \<Rightarrow> fl \<Rightarrow> fl \<Rightarrow> fl" where
  "fl_div rnd (Fin a) (Fin b) =
     (if b \<noteq> 0 then rnd (a / b)
      else if a = 0 then NaN else if 0 < a then PInf else NInf)"
| "fl_div rnd NaN _ = NaN"
| "fl_div rnd _ NaN = NaN"
| "fl_div rnd (Fin a) PInf = Fin 0"
| "fl_div rnd (Fin a) NInf = Fin 0"
| "fl_div rnd PInf (Fin b) = (if 0 \<le> b then PInf else NInf)"
| "fl_div rnd NInf (Fin b) = (if 0 \<le> b then NInf else PInf)"
| "fl_div rnd PInf PInf = NaN"
| "fl_div rnd PInf NInf = NaN"
| "fl_div rnd NInf PInf = NaN"
| "fl_div rnd NInf NInf = NaN"

fun fl_sqrt :: "(real \<Rightarrow> fl) \<Rightarrow> fl \<Rightarrow> fl" where
  "fl_sqrt rnd (Fin a) = (if 0 \<le> a then rnd (sqrt a) else NaN)"
| "fl_sqrt rnd PInf = PInf"
| "fl_sqrt rnd NInf = NaN"
| "fl_sqrt rnd NaN = NaN"

text \<open>
  \<^verbatim>\<open>x ** n\<close> for a natural exponent (the source only uses the exponent 2), as the rounded
  exact power. The last bit of the library's power function is its own; the rounded power
  agrees with every implementation that is accurate to less than one unit in the last
  place wherever the exact power is a value of the format.
\<close>

fun fl_pow :: "(real \<Rightarrow> fl) \<Rightarrow> fl \<Rightarrow> nat \<Rightarrow> fl" where
  "fl_pow rnd (Fin a) n = rnd (a ^ n)"
| "fl_pow rnd PInf n = (if n = 0 then Fin 1 else PInf)"
| "fl_pow rnd NInf n = (if n = 0 then Fin 1 else if even n then PInf else NInf)"
| "fl_pow rnd NaN n = (if n = 0 then Fin 1 else NaN)"

text \<open>The conversion of a value to the working precision.\<close>

fun fl_cast :: "(real \<Rightarrow> fl) \<Rightarrow> fl \<Rightarrow> fl" where
  "fl_cast rnd (Fin a) = rnd a"
| "fl_cast rnd PInf = PInf"
| "fl_cast rnd NInf = NInf"
| "fl_cast rnd NaN = NaN"

text \<open>The comparison \<^verbatim>\<open>x > y\<close>: false as soon as one side is NaN.\<close>

fun fl_greater :: "fl \<Rightarrow> fl \<Rightarrow> bool" where
  "fl_greater (Fin a) (Fin b) = (b < a)"
| "fl_greater NaN _ = False"
| "fl_greater _ NaN = False"
| "fl_greater PInf PInf = False"
| "fl_greater PInf _ = True"
| "fl_greater NInf _ = False"
| "fl_greater (Fin a) PInf = False"
| "fl_greater (Fin a) NInf = True"

text \<open>A value is non-negative: a finite value at least zero, or plus infinity.\<close>

fun fl_nonneg :: "fl \<Rightarrow> bool" where
  "fl_nonneg (Fin a) = (0 \<le> a)"
| "fl_nonneg PInf = True"
| "fl_nonneg _ = False"

text \<open>
  A sum of several values is accumulated one value after the other. The library does not
  fix the order of its reductions; the inputs at which the rounded routines are evaluated
  below have rows of at most two entries whose products and sums are values of the
  format, so that the order does not matter there.
\<close>

primrec fl_sum :: "(real \<Rightarrow> fl) \<Rightarrow> fl list \<Rightarrow> fl" where
  "fl_sum rnd [] = Fin 0"
| "fl_sum rnd (x # xs) = fl_add rnd x (fl_sum rnd xs)"

section \<open>The two roundings\<close>

text \<open>Exact arithmetic: no rounding.\<close>

definition exact :: "real \<Rightarrow> fl" where
  "exact x = Fin x"

text \<open>
  The binary32 format: 24 significant bits, exponents from -126 to 127. The exponent of
  \<open>x\<close> is the least \<open>e\<close> from -126 on with \<open>|x| < 2 ^ (e + 1)\<close>, at most 127 (it is searched
  upwards from 0 for a magnitude of at least one, downwards from -1 otherwise), and \<open>x\<close>
  is rounded to the nearest multiple of \<open>2 ^ (e - 23)\<close>, to the even one when two are
  equally near; a result of magnitude \<open>2 ^ 128\<close> or more is an infinity.
\<close>

definition pow2 :: "int \<Rightarrow> real" where
  "pow2 e = (if 0 \<le> e then 2 ^ nat e else 1 / 2 ^ nat (- e))"

definition round_even :: "real \<Rightarrow> int" where
  "round_even x =
     (let f = \<lfloor>x\<rfloor>; d = x - of_int f in
      if d < 1 / 2 then f else if 1 / 2 < d then f + 1 else if even f then f else f + 1)"

fun expo_up :: "nat \<Rightarrow> int \<Rightarrow> real \<Rightarrow> int" where
  "expo_up 0 e x = e"
| "expo_up (Suc n) e x = (if x < pow2 (e + 1) then e else expo_up n (e + 1) x)"

fun expo_down :: "nat \<Rightarrow> int \<Rightarrow> real \<Rightarrow> int" where
  "expo_down 0 e x = e"
| "expo_down (Suc n) e x = (if pow2 e \<le> x then e else expo_down n (e - 1) x)"

definition expo32 :: "real \<Rightarrow> int" where
  "expo32 x = (if 1 \<le> \<bar>x\<bar> then expo_up 127 0 \<bar>x\<bar> else expo_down 125 (- 1) \<bar>x\<bar>)"

definition float32 :: "real \<Rightarrow> fl" where
  "float32 x =
     (let q = pow2 (expo32 x - 23); y = of_int (round_even (x / q)) * q in
      if 2 ^ 128 \<le> \<bar>y\<bar> then (if 0 < x then PInf else NInf) else Fin y)"

section \<open>Tensors\<close>

text \<open>
  The two operands are matrices (the PointSets of the specification): a rank-2 tensor is
  its shape and its elements in row-major order. The rank-1 tensors the routines build on
  the way (row sums, row norms) are lists. Errors raised by the numeric library are the
  value \<open>InvalidArgumentError\<close>; the \<^verbatim>\<open>ValueError\<close> of the dispatcher carries its message.
\<close>

record tensor =
  nrows :: nat
  ncols :: nat
  elems :: "fl list"

datatype error = ValueError string | InvalidArgumentError

definition wf_tensor :: "tensor \<Rightarrow> bool" where
  "wf_tensor t \<longleftrightarrow> length (elems t) = nrows t * ncols t"

definition all_fin :: "tensor \<Rightarrow> bool" where
  "all_fin t \<longleftrightarrow> list_all is_fin (elems t)"

definition entry :: "tensor \<Rightarrow> nat \<Rightarrow> nat \<Rightarrow> fl" where
  "entry t i j = elems t ! (i * ncols t + j)"

definition mk_tensor :: "nat \<Rightarrow> nat \<Rightarrow> (nat \<Rightarrow> nat \<Rightarrow> fl) \<Rightarrow> tensor" where
  "mk_tensor n m f =
     \<lparr>nrows = n, ncols = m, elems = map (\<lambda>k. f (k div m) (k mod m)) [0..<n * m]\<rparr>"

text \<open>Elementwise operations with a scalar or alone.\<close>

definition tf_pow :: "(real \<Rightarrow> fl) \<Rightarrow> tensor \<Rightarrow> nat \<Rightarrow> tensor" where
  "tf_pow rnd t p = t\<lparr>elems := map (\<lambda>x. fl_pow rnd x p) (elems t)\<rparr>"

definition tf_sqrt :: "(real \<Rightarrow> fl) \<Rightarrow> tensor \<Rightarrow> tensor" where
  "tf_sqrt rnd t = t\<lparr>elems := map (fl_sqrt rnd) (elems t)\<rparr>"

definition tf_scalar_mul :: "(real \<Rightarrow> fl) \<Rightarrow> fl \<Rightarrow> tensor \<Rightarrow> tensor" where
  "tf_scalar_mul rnd c t = t\<lparr>elems := map (\<lambda>x. fl_mul rnd c x) (elems t)\<rparr>"

definition tf_scalar_sub :: "(real \<Rightarrow> fl) \<Rightarrow> fl \<Rightarrow> tensor \<Rightarrow> tensor" where
  "tf_scalar_sub rnd c t = t\<lparr>elems := map (\<lambda>x. fl_sub rnd c x) (elems t)\<rparr>"

definition tf_greater :: "tensor \<Rightarrow> fl \<Rightarrow> bool list" where
  "tf_greater t c = map (\<lambda>x. fl_greater x c) (elems t)"

text \<open>\<^verbatim>\<open>tf.where(cond, x, y)\<close> with a condition of the shape of \<open>x\<close> and a scalar \<open>y\<close>.\<close>

definition tf_where :: "bool list \<Rightarrow> tensor \<Rightarrow> fl \<Rightarrow> tensor" where
  "tf_where c x y = x\<lparr>elems := map (\<lambda>(b, v). if b then v else y) (zip c (elems x))\<rparr>"

text \<open>
  The cast to \<^verbatim>\<open>tf.float32\<close> rounds every finite element to the working precision. The
  conversion of an operand to a tensor leaves a matrix as it is.
\<close>

definition tf_cast_float32 :: "(real \<Rightarrow> fl) \<Rightarrow> tensor \<Rightarrow> tensor" where
  "tf_cast_float32 rnd t = t\<lparr>elems := map (fl_cast rnd) (elems t)\<rparr>"

definition tf_convert_to_tensor :: "tensor \<Rightarrow> tensor" where
  "tf_convert_to_tensor t = t"

text \<open>\<^verbatim>\<open>tf.reduce_sum(t, axis=1)\<close>: the sum of each row.\<close>

definition tf_reduce_sum_axis1 :: "(real \<Rightarrow> fl) \<Rightarrow> tensor \<Rightarrow> fl list" where
  "tf_reduce_sum_axis1 rnd t =
     map (\<lambda>i. fl_sum rnd (map (\<lambda>k. entry t i k) [0..<ncols t])) [0..<nrows t]"

text \<open>\<^verbatim>\<open>tf.norm(t, axis=1)\<close>: the square root of the sum of the squares of each row.\<close>

definition tf_norm_axis1 :: "(real \<Rightarrow> fl) \<Rightarrow> tensor \<Rightarrow> fl list" where
  "tf_norm_axis1 rnd t =
     map (\<lambda>i. fl_sqrt rnd
            (fl_sum rnd (map (\<lambda>k. fl_mul rnd (entry t i k) (entry t i k)) [0..<ncols t])))
       [0..<nrows t]"

text \<open>
  \<^verbatim>\<open>tf.reshape\<close> of a rank-1 tensor to a shape of two entries, one of which may be \<open>-1\<close>
  (inferred). When the other entry is zero, the inferred one is 1 for a tensor without
  elements, and the library raises for any other tensor; otherwise the other entry has to
  divide the number of elements.
\<close>

definition tf_reshape :: "fl list \<Rightarrow> int \<times> int \<Rightarrow> error + tensor" where
  "tf_reshape v s =
     (let n = int (length v); a = fst s; b = snd s in
      if a < -1 \<or> b < -1 \<or> (a = -1 \<and> b = -1) then Inl InvalidArgumentError
      else if a = -1 then
        (if b = 0 then
           (if n = 0 then Inr \<lparr>nrows = 1, ncols = 0, elems = v\<rparr>
            else Inl InvalidArgumentError)
         else if n mod b \<noteq> 0 then Inl InvalidArgumentError
         else Inr \<lparr>nrows = nat (n div b), ncols = nat b, elems = v\<rparr>)
      else if b = -1 then
        (if a = 0 then
           (if n = 0 then Inr \<lparr>nrows = 0, ncols = 1, elems = v\<rparr>
            else Inl InvalidArgumentError)
         else if n mod a \<noteq> 0 then Inl InvalidArgumentError
         else Inr \<lparr>nrows = nat a, ncols = nat (n div a), elems = v\<rparr>)
      else if a * b = n then Inr \<lparr>nrows = nat a, ncols = nat b, elems = v\<rparr>
      else Inl InvalidArgumentError)"

text \<open>\<^verbatim>\<open>tf.tile(t, multiples)\<close>: the matrix repeated along both axes.\<close>

definition tf_tile :: "tensor \<Rightarrow> nat \<times> nat \<Rightarrow> tensor" where
  "tf_tile t mult =
     mk_tensor (fst mult * nrows t) (snd mult * ncols t)
       (\<lambda>i j. entry t (i mod nrows t) (j mod ncols t))"

definition tf_transpose :: "tensor \<Rightarrow> tensor" where
  "tf_transpose t = mk_tensor (ncols t) (nrows t) (\<lambda>i j. entry t j i)"

text \<open>\<^verbatim>\<open>tf.matmul\<close> raises when the inner dimensions differ.\<close>

definition tf_matmul :: "(real \<Rightarrow> fl) \<Rightarrow> tensor \<Rightarrow> tensor \<Rightarrow> error + tensor" where
  "tf_matmul rnd a b =
     (if ncols a \<noteq> nrows b then Inl InvalidArgumentError
      else Inr (mk_tensor (nrows a) (ncols b)
             (\<lambda>i j. fl_sum rnd (map (\<lambda>k. fl_mul rnd (entry a i k) (entry b k j))
                       [0..<ncols a]))))"

text \<open>
  Binary elementwise operations broadcast: along each axis the two sizes are equal or one
  of them is 1, and the operand of size 1 is repeated; otherwise the library raises.
\<close>

definition broadcast_dim :: "nat \<Rightarrow> nat \<Rightarrow> nat option" where
  "broadcast_dim a b =
     (if a = b then Some a else if a = 1 then Some b else if b = 1 then Some a else None)"

definition bentry :: "tensor \<Rightarrow> nat \<Rightarrow> nat \<Rightarrow> fl" where
  "bentry t i j = entry t (if nrows t = 1 then 0 else i) (if ncols t = 1 then 0 else j)"

definition tf_binop :: "(fl \<Rightarrow> fl \<Rightarrow> fl) \<Rightarrow> tensor \<Rightarrow> tensor \<Rightarrow> error + tensor" where
  "tf_binop f x y =
     (case (broadcast_dim (nrows x) (nrows y), broadcast_dim (ncols x) (ncols y)) of
        (Some n, Some m) \<Rightarrow> Inr (mk_tensor n m (\<lambda>i j. f (bentry x i j) (bentry y i j)))
      | _ \<Rightarrow> Inl InvalidArgumentError)"

definition tf_add :: "(real \<Rightarrow> fl) \<Rightarrow> tensor \<Rightarrow> tensor \<Rightarrow> error + tensor" where
  "tf_add rnd = tf_binop (fl_add rnd)"

definition tf_sub :: "(real \<Rightarrow> fl) \<Rightarrow> tensor \<Rightarrow> tensor \<Rightarrow> error + tensor" where
  "tf_sub rnd = tf_binop (fl_sub rnd)"

definition tf_div :: "(real \<Rightarrow> fl) \<Rightarrow> tensor \<Rightarrow> tensor \<Rightarrow> error + tensor" where
  "tf_div rnd = tf_binop (fl_div rnd)"

section \<open>The helpers of the module\<close>

definition cast_left_and_right_to_tensors ::
  "(real \<Rightarrow> fl) \<Rightarrow> tensor \<Rightarrow> tensor \<Rightarrow> tensor \<times> tensor" where
  "cast_left_and_right_to_tensors rnd left right =
     (tf_cast_float32 rnd (tf_convert_to_tensor left),
      tf_cast_float32 rnd (tf_convert_to_tensor right))"

definition get_rows_counts :: "tensor \<Rightarrow> tensor \<Rightarrow> nat \<times> nat" where
  "get_rows_counts left right = (nrows left, nrows right)"

definition get_tensor_sqr ::
  "(real \<Rightarrow> fl) \<Rightarrow> tensor \<Rightarrow> int \<times> int \<Rightarrow> nat \<times> nat \<Rightarrow> error + tensor" where
  "get_tensor_sqr rnd t reshape_shape tile_shape =
     (let sqr = tf_pow rnd t 2;
          sqr = tf_reduce_sum_axis1 rnd sqr in
      case tf_reshape sqr reshape_shape of
        Inl e \<Rightarrow> Inl e
      | Inr sqr \<Rightarrow> Inr (tf_tile sqr tile_shape))"

text \<open>
  Both callers pass a shape of two entries; the default of the source (no shape, which
  keeps the rank-1 tensor) is not used by the distance routines.
\<close>

definition get_tensor_reshaped_norm ::
  "(real \<Rightarrow> fl) \<Rightarrow> tensor \<Rightarrow> int \<times> int \<Rightarrow> error + tensor" where
  "get_tensor_reshaped_norm rnd t reshape_shape =
     (let norm = tf_norm_axis1 rnd t in tf_reshape norm reshape_shape)"

section \<open>The distance routines\<close>

text \<open>
  Lines 88 to 93 of \<^verbatim>\<open>tf_cdist_euclidean\<close>: the matrix \<^verbatim>\<open>sqr_sum\<close>, that is
  \<^verbatim>\<open>left_sqr - 2.0 * left_right_mat_mul + right_sqr\<close>.
\<close>

definition euclidean_sqr_sum :: "(real \<Rightarrow> fl) \<Rightarrow> tensor \<Rightarrow> tensor \<Rightarrow> error + tensor" where
  "euclidean_sqr_sum rnd left0 right0 =
     (let (left, right) = cast_left_and_right_to_tensors rnd left0 right0;
          (rows_count_left, rows_count_right) = get_rows_counts left right in
      case get_tensor_sqr rnd left (-1, 1) (1, rows_count_right) of
        Inl e \<Rightarrow> Inl e
      | Inr left_sqr \<Rightarrow>
      case get_tensor_sqr rnd right (1, -1) (rows_count_left, 1) of
        Inl e \<Rightarrow> Inl e
      | Inr right_sqr \<Rightarrow>
      case tf_matmul rnd left (tf_transpose right) of
        Inl e \<Rightarrow> Inl e
      | Inr left_right_mat_mul \<Rightarrow>
      case tf_sub rnd left_sqr (tf_scalar_mul rnd (Fin 2) left_right_mat_mul) of
        Inl e \<Rightarrow> Inl e
      | Inr d \<Rightarrow> tf_add rnd d right_sqr)"

text \<open>Lines 94 to 96: the clamped square root and the final cast.\<close>

definition clamp_sqrt :: "(real \<Rightarrow> fl) \<Rightarrow> tensor \<Rightarrow> tensor" where
  "clamp_sqrt rnd sqr_sum =
     (let distance = tf_where (tf_greater sqr_sum (Fin 0)) (tf_sqrt rnd sqr_sum) (Fin 0);
          distance = tf_cast_float32 rnd distance
      in distance)"

definition tf_cdist_euclidean :: "(real \<Rightarrow> fl) \<Rightarrow> tensor \<Rightarrow> tensor \<Rightarrow> error + tensor" where
  "tf_cdist_euclidean rnd left right =
     (case euclidean_sqr_sum rnd left right of
        Inl e \<Rightarrow> Inl e
      | Inr sqr_sum \<Rightarrow> Inr (clamp_sqrt rnd sqr_sum))"

definition tf_cdist_cos :: "(real \<Rightarrow> fl) \<Rightarrow> tensor \<Rightarrow> tensor \<Rightarrow> error + tensor" where
  "tf_cdist_cos rnd left0 right0 =
     (let (left, right) = cast_left_and_right_to_tensors rnd left0 right0 in
      case get_tensor_reshaped_norm rnd left (-1, 1) of
        Inl e \<Rightarrow> Inl e
      | Inr norm_left \<Rightarrow>
      case get_tensor_reshaped_norm rnd right (1, -1) of
        Inl e \<Rightarrow> Inl e
      | Inr norm_right \<Rightarrow>
      case tf_matmul rnd left (tf_transpose right) of
        Inl e \<Rightarrow> Inl e
      | Inr mm \<Rightarrow>
      case tf_div rnd mm norm_left of
        Inl e \<Rightarrow> Inl e
      | Inr q \<Rightarrow>
      case tf_div rnd q norm_right of
        Inl e \<Rightarrow> Inl e
      | Inr cos_mat \<Rightarrow>
          (let distance = tf_scalar_sub rnd (Fin 1) cos_mat;
               distance = tf_cast_float32 rnd distance
           in Inr distance))"

definition tf_cdist ::
  "(real \<Rightarrow> fl) \<Rightarrow> tensor \<Rightarrow> tensor \<Rightarrow> string \<Rightarrow> error + tensor" where
  "tf_cdist rnd left right metric =
     (if metric = ''euclidean'' then tf_cdist_euclidean rnd left right
      else if metric = ''cosine'' then tf_cdist_cos rnd left right
      else
        (let err_msg = ''Metric type not understood: value '' @ metric @ '' is not valid!''
         in Inl (ValueError err_msg)))"

section \<open>Reference quantities\<close>

text \<open>
  The entries of the intermediate matrices, written for one pair of rows: the sum of the
  squares of row \<open>i\<close> as \<^verbatim>\<open>tf.pow\<close> and \<^verbatim>\<open>tf.reduce_sum\<close> compute it, the entry of
  \<^verbatim>\<open>tf.matmul(left, tf.transpose(right))\<close>, and the norm of a row as \<^verbatim>\<open>tf.norm\<close> computes it.
\<close>

definition row_sqr :: "(real \<Rightarrow> fl) \<Rightarrow> tensor \<Rightarrow> nat \<Rightarrow> fl" where
  "row_sqr rnd t i = fl_sum rnd (map (\<lambda>k. fl_pow rnd (entry t i k) 2) [0..<ncols t])"

definition cross :: "(real \<Rightarrow> fl) \<Rightarrow> tensor \<Rightarrow> nat \<Rightarrow> tensor \<Rightarrow> nat \<Rightarrow> fl" where
  "cross rnd l i r j =
     fl_sum rnd (map (\<lambda>k. fl_mul rnd (entry l i k) (entry r j k)) [0..<ncols l])"

definition row_norm :: "(real \<Rightarrow> fl) \<Rightarrow> tensor \<Rightarrow> nat \<Rightarrow> fl" where
  "row_norm rnd t i =
     fl_sqrt rnd (fl_sum rnd (map (\<lambda>k. fl_mul rnd (entry t i k) (entry t i k)) [0..<ncols t]))"

text \<open>The entry of \<^verbatim>\<open>sqr_sum\<close> for row \<open>i\<close> of the left and row \<open>j\<close> of the right operand.\<close>

definition sqr_sum_entry :: "(real \<Rightarrow> fl) \<Rightarrow> tensor \<Rightarrow> nat \<Rightarrow> tensor \<Rightarrow> nat \<Rightarrow> fl" where
  "sqr_sum_entry rnd l i r j =
     fl_add rnd (fl_sub rnd (row_sqr rnd l i) (fl_mul rnd (Fin 2) (cross rnd l i r j)))
       (row_sqr rnd r j)"

text \<open>The clamped square root of one entry, as lines 94 and 95 compute it.\<close>

definition clamp_entry :: "(real \<Rightarrow> fl) \<Rightarrow> fl \<Rightarrow> fl" where
  "clamp_entry rnd s = fl_cast rnd (if fl_greater s (Fin 0) then fl_sqrt rnd s else Fin 0)"

text \<open>
  The entry of \<^verbatim>\<open>1.0 - cos\<close> for the same pair of rows: the cross term divided by the norm
  of the left row, then by the norm of the right row, and subtracted from one.
\<close>

definition cos_entry :: "(real \<Rightarrow> fl) \<Rightarrow> tensor \<Rightarrow> nat \<Rightarrow> tensor \<Rightarrow> nat \<Rightarrow> fl" where
  "cos_entry rnd l i r j =
     fl_sub rnd (Fin 1)
       (fl_div rnd (fl_div rnd (cross rnd l i r j) (row_norm rnd l i)) (row_norm rnd r j))"

text \<open>
  The mathematical quantities over the reals, for matrices of finite values: the dot
  product of two rows, the squared norm of a row and the squared norm of the difference
  of two rows.
\<close>

definition dot :: "tensor \<Rightarrow> nat \<Rightarrow> tensor \<Rightarrow> nat \<Rightarrow> real" where
  "dot l i r j = (\<Sum>k<ncols l. val (entry l i k) * val (entry r j k))"

definition sq_norm :: "tensor \<Rightarrow> nat \<Rightarrow> real" where
  "sq_norm t i = (\<Sum>k<ncols t. (val (entry t i k))\<^sup>2)"

definition sq_dist :: "tensor \<Rightarrow> nat \<Rightarrow> tensor \<Rightarrow> nat \<Rightarrow> real" where
  "sq_dist l i r j = (\<Sum>k<ncols l. (val (entry l i k) - val (entry r j k))\<^sup>2)"

text \<open>Row \<open>i\<close> of a matrix is the zero vector.\<close>

definition zero_row :: "tensor \<Rightarrow> nat \<Rightarrow> bool" where
  "zero_row t i \<longleftrightarrow> list_all (\<lambda>k. entry t i k = Fin 0) [0..<ncols t]"

text \<open>A rounding keeps zero; it keeps zero and the sign of what is not negative.\<close>

definition keeps_zero :: "(real \<Rightarrow> fl) \<Rightarrow> bool" where
  "keeps_zero rnd \<longleftrightarrow> rnd 0 = Fin 0"

definition keeps_sign :: "(real \<Rightarrow> fl) \<Rightarrow> bool" where
  "keeps_sign rnd \<longleftrightarrow> keeps_zero rnd \<and> (\<forall>x. 0 \<le> x \<longrightarrow> fl_nonneg (rnd x))"

text \<open>The example of the docstrings: \<^verbatim>\<open>[[1, 2], [3, 4]]\<close> and \<^verbatim>\<open>[[10, 11], [12, 13]]\<close>.\<close>

definition ex_left :: tensor where
  "ex_left = \<lparr>nrows = 2, ncols = 2, elems = [Fin 1, Fin 2, Fin 3, Fin 4]\<rparr>"

definition ex_right :: tensor where
  "ex_right = \<lparr>nrows = 2, ncols = 2, elems = [Fin 10, Fin 11, Fin 12, Fin 13]\<rparr>"



definition ex_empty :: tensor where
  "ex_empty = \<lparr>nrows = 0, ncols = 2, elems = []\<rparr>"

text \<open>An operand whose only row is the zero vector, and a matrix with a negative entry.\<close>

definition ex_zero :: tensor where
  "ex_zero = \<lparr>nrows = 1, ncols = 2, elems = [Fin 0, Fin 0]\<rparr>"

definition ex_negative :: tensor where
  "ex_negative = \<lparr>nrows = 1, ncols = 2, elems = [Fin (- 1), Fin 4]\<rparr>"

text \<open>
  Operands at which the rounded routines are evaluated: pairs of parallel rows of small
  integers, and a matrix of two rows with one column.
\<close>

definition par_left1 :: tensor where
  "par_left1 = \<lparr>nrows = 1, ncols = 2, elems = [Fin 1, Fin 1]\<rparr>"

definition par_right1 :: tensor where
  "par_right1 = \<lparr>nrows = 1, ncols = 2, elems = [Fin 3, Fin 3]\<rparr>"

definition par_left2 :: tensor where
  "par_left2 = \<lparr>nrows = 1, ncols = 2, elems = [Fin 14, Fin 9]\<rparr>"

definition par_right2 :: tensor where
  "par_right2 = \<lparr>nrows = 1, ncols = 2, elems = [Fin 56, Fin 36]\<rparr>"

definition par_left3 :: tensor where
  "par_left3 = \<lparr>nrows = 1, ncols = 2, elems = [Fin 3, Fin 5]\<rparr>"

definition par_right3 :: tensor where
  "par_right3 = \<lparr>nrows = 1, ncols = 2, elems = [Fin 6, Fin 10]\<rparr>"

definition two_points :: tensor where
  "two_points = \<lparr>nrows = 2, ncols = 1, elems = [Fin 4098, Fin 3971]\<rparr>"

section \<open>Indexing and elementwise lemmas\<close>

lemma idx_lt: "i < n \<Longrightarrow> j < m \<Longrightarrow> i * m + j < n * (m::nat)"
proof -
  assume a: "i < n" "j < m"
  then have "i * m + j < i * m + m" by simp
  also have "\<dots> = Suc i * m" by simp
  also have "\<dots> \<le> n * m" using a(1) by (intro mult_le_mono1) simp
  finally show ?thesis .
qed

lemma mk_tensor_shape [simp]:
  "nrows (mk_tensor n m f) = n" "ncols (mk_tensor n m f) = m"
  by (simp_all add: mk_tensor_def)

lemma mk_tensor_wf [simp]: "wf_tensor (mk_tensor n m f)"
  by (simp add: mk_tensor_def wf_tensor_def)

lemma mk_tensor_entry: "i < n \<Longrightarrow> j < m \<Longrightarrow> entry (mk_tensor n m f) i j = f i j"
  using idx_lt [of i n j m] by (simp add: mk_tensor_def entry_def)

lemma mk_tensor_length [simp]: "length (elems (mk_tensor n m f)) = n * m"
  by (simp add: mk_tensor_def)

lemma mk_tensor_elems_empty: "n = 0 \<or> m = 0 \<Longrightarrow> elems (mk_tensor n m f) = []"
  by (auto simp: mk_tensor_def)

lemma mk_tensor_cong:
  assumes "\<And>i j. i < n \<Longrightarrow> j < m \<Longrightarrow> f i j = g i j"
  shows "mk_tensor n m f = mk_tensor n m g"
proof -
  have "f (k div m) (k mod m) = g (k div m) (k mod m)" if "k < n * m" for k
  proof -
    have "0 < m" using that by (cases m) simp_all
    moreover have "k div m < n" using that by (simp add: less_mult_imp_div_less)
    ultimately show ?thesis by (simp add: assms)
  qed
  then show ?thesis by (simp add: mk_tensor_def)
qed

lemma entry_map:
  assumes "wf_tensor t" "i < nrows t" "j < ncols t"
  shows "entry (t\<lparr>elems := map g (elems t)\<rparr>) i j = g (entry t i j)"
  using assms idx_lt [of i "nrows t" j "ncols t"] by (simp add: entry_def wf_tensor_def)

lemma entry_fin:
  assumes "wf_tensor t" "all_fin t" "i < nrows t" "j < ncols t"
  shows "entry t i j = Fin (val (entry t i j))"
proof -
  have "i * ncols t + j < length (elems t)"
    using assms idx_lt [of i "nrows t" j "ncols t"] by (simp add: wf_tensor_def)
  then have "is_fin (entry t i j)"
    using assms(2) by (simp add: all_fin_def entry_def list_all_length)
  then show ?thesis by (cases "entry t i j") simp_all
qed

lemma tf_cast_shape [simp]:
  "nrows (tf_cast_float32 rnd t) = nrows t" "ncols (tf_cast_float32 rnd t) = ncols t"
  by (simp_all add: tf_cast_float32_def)

lemma tf_cast_wf [simp]: "wf_tensor (tf_cast_float32 rnd t) = wf_tensor t"
  by (simp add: tf_cast_float32_def wf_tensor_def)

lemma tf_cast_entry:
  "wf_tensor t \<Longrightarrow> i < nrows t \<Longrightarrow> j < ncols t \<Longrightarrow>
   entry (tf_cast_float32 rnd t) i j = fl_cast rnd (entry t i j)"
  unfolding tf_cast_float32_def by (rule entry_map)

lemma tf_cast_mk:
  "tf_cast_float32 rnd (mk_tensor n m f) = mk_tensor n m (\<lambda>i j. fl_cast rnd (f i j))"
  by (simp add: tf_cast_float32_def mk_tensor_def)

lemma tf_reshape_col: "tf_reshape v (-1, 1) = Inr \<lparr>nrows = length v, ncols = 1, elems = v\<rparr>"
  by (simp add: tf_reshape_def)

lemma tf_reshape_row: "tf_reshape v (1, -1) = Inr \<lparr>nrows = 1, ncols = length v, elems = v\<rparr>"
  by (simp add: tf_reshape_def)

section \<open>Closed forms of the intermediate matrices\<close>

lemma bentry_entry: "i < nrows x \<Longrightarrow> j < ncols x \<Longrightarrow> bentry x i j = entry x i j"
  by (auto simp: bentry_def)

lemma broadcast_dim_same [simp]: "broadcast_dim a a = Some a"
  by (simp add: broadcast_dim_def)

lemma broadcast_dim_one [simp]: "broadcast_dim a (Suc 0) = Some a"
  by (simp add: broadcast_dim_def)

lemma tf_binop_same:
  assumes "nrows x = nrows y" "ncols x = ncols y"
  shows "tf_binop f x y =
    Inr (mk_tensor (nrows x) (ncols x) (\<lambda>i j. f (entry x i j) (entry y i j)))"
proof -
  have "mk_tensor (nrows x) (ncols x) (\<lambda>i j. f (bentry x i j) (bentry y i j)) =
        mk_tensor (nrows x) (ncols x) (\<lambda>i j. f (entry x i j) (entry y i j))"
    by (rule mk_tensor_cong) (simp add: bentry_entry assms)
  then show ?thesis by (simp add: tf_binop_def assms [symmetric])
qed

lemma entry_tf_pow:
  "wf_tensor t \<Longrightarrow> i < nrows t \<Longrightarrow> j < ncols t \<Longrightarrow>
   entry (tf_pow rnd t p) i j = fl_pow rnd (entry t i j) p"
  unfolding tf_pow_def by (rule entry_map)

lemma tf_pow_shape [simp]:
  "nrows (tf_pow rnd t p) = nrows t" "ncols (tf_pow rnd t p) = ncols t"
  by (simp_all add: tf_pow_def)

lemma reduce_sum_length [simp]: "length (tf_reduce_sum_axis1 rnd t) = nrows t"
  by (simp add: tf_reduce_sum_axis1_def)

lemma reduce_sum_pow_nth:
  assumes "wf_tensor t" "i < nrows t"
  shows "tf_reduce_sum_axis1 rnd (tf_pow rnd t 2) ! i = row_sqr rnd t i"
proof -
  have eq: "map (\<lambda>k. entry (tf_pow rnd t 2) i k) [0..<ncols t] =
            map (\<lambda>k. fl_pow rnd (entry t i k) 2) [0..<ncols t]"
    by (rule map_cong [OF refl]) (simp add: entry_tf_pow assms)
  show ?thesis using assms(2) by (simp add: tf_reduce_sum_axis1_def row_sqr_def eq)
qed

lemma get_tensor_sqr_left:
  assumes "wf_tensor t"
  shows "get_tensor_sqr rnd t (-1, 1) (1, m) =
           Inr (mk_tensor (nrows t) m (\<lambda>i j. row_sqr rnd t i))"
proof -
  let ?v = "tf_reduce_sum_axis1 rnd (tf_pow rnd t 2)"
  let ?c = "\<lparr>nrows = length ?v, ncols = 1, elems = ?v\<rparr>"
  have "tf_tile ?c (1, m) = mk_tensor (nrows t) m (\<lambda>i j. entry ?c (i mod nrows t) (j mod 1))"
    by (simp add: tf_tile_def)
  also have "\<dots> = mk_tensor (nrows t) m (\<lambda>i j. row_sqr rnd t i)"
    by (rule mk_tensor_cong) (simp add: entry_def reduce_sum_pow_nth assms)
  finally show ?thesis by (simp add: get_tensor_sqr_def tf_reshape_col)
qed

lemma get_tensor_sqr_right:
  assumes "wf_tensor t"
  shows "get_tensor_sqr rnd t (1, -1) (n, 1) =
           Inr (mk_tensor n (nrows t) (\<lambda>i j. row_sqr rnd t j))"
proof -
  let ?v = "tf_reduce_sum_axis1 rnd (tf_pow rnd t 2)"
  let ?c = "\<lparr>nrows = 1, ncols = length ?v, elems = ?v\<rparr>"
  have "tf_tile ?c (n, 1) = mk_tensor n (nrows t) (\<lambda>i j. entry ?c (i mod 1) (j mod nrows t))"
    by (simp add: tf_tile_def)
  also have "\<dots> = mk_tensor n (nrows t) (\<lambda>i j. row_sqr rnd t j)"
    by (rule mk_tensor_cong) (simp add: entry_def reduce_sum_pow_nth assms)
  finally show ?thesis by (simp add: get_tensor_sqr_def tf_reshape_row)
qed

lemma matmul_transpose:
  assumes "ncols l = ncols r"
  shows "tf_matmul rnd l (tf_transpose r) =
           Inr (mk_tensor (nrows l) (nrows r) (\<lambda>i j. cross rnd l i r j))"
proof -
  have "mk_tensor (nrows l) (nrows r)
          (\<lambda>i j. fl_sum rnd (map (\<lambda>k. fl_mul rnd (entry l i k) (entry (tf_transpose r) k j))
                    [0..<ncols l])) =
        mk_tensor (nrows l) (nrows r) (\<lambda>i j. cross rnd l i r j)"
  proof (rule mk_tensor_cong)
    fix i j assume "i < nrows l" "j < nrows r"
    then have eq: "map (\<lambda>k. fl_mul rnd (entry l i k) (entry (tf_transpose r) k j)) [0..<ncols l] =
               map (\<lambda>k. fl_mul rnd (entry l i k) (entry r j k)) [0..<ncols l]"
      by (intro map_cong [OF refl]) (simp add: tf_transpose_def mk_tensor_entry assms [symmetric])
    show "fl_sum rnd (map (\<lambda>k. fl_mul rnd (entry l i k) (entry (tf_transpose r) k j))
            [0..<ncols l]) = cross rnd l i r j"
      by (simp add: cross_def eq)
  qed
  then show ?thesis using assms by (simp add: tf_matmul_def tf_transpose_def)
qed


lemma scalar_mul_mk:
  "tf_scalar_mul rnd c (mk_tensor n m f) = mk_tensor n m (\<lambda>i j. fl_mul rnd c (f i j))"
  by (simp add: tf_scalar_mul_def mk_tensor_def)

lemma scalar_sub_mk:
  "tf_scalar_sub rnd c (mk_tensor n m f) = mk_tensor n m (\<lambda>i j. fl_sub rnd c (f i j))"
  by (simp add: tf_scalar_sub_def mk_tensor_def)

lemma sqr_sum_closed_cast:
  assumes "wf_tensor l" "wf_tensor r" "ncols l = ncols r"
  shows "(case get_tensor_sqr rnd l (-1, 1) (1, nrows r) of
            Inl e \<Rightarrow> Inl e
          | Inr left_sqr \<Rightarrow>
          case get_tensor_sqr rnd r (1, -1) (nrows l, 1) of
            Inl e \<Rightarrow> Inl e
          | Inr right_sqr \<Rightarrow>
          case tf_matmul rnd l (tf_transpose r) of
            Inl e \<Rightarrow> Inl e
          | Inr left_right_mat_mul \<Rightarrow>
          case tf_sub rnd left_sqr (tf_scalar_mul rnd (Fin 2) left_right_mat_mul) of
            Inl e \<Rightarrow> Inl e
          | Inr d \<Rightarrow> tf_add rnd d right_sqr) =
         Inr (mk_tensor (nrows l) (nrows r) (\<lambda>i j. sqr_sum_entry rnd l i r j))"
proof -
  let ?n = "nrows l" and ?m = "nrows r"
  let ?A = "mk_tensor ?n ?m (\<lambda>i j. row_sqr rnd l i)"
  let ?B = "mk_tensor ?n ?m (\<lambda>i j. row_sqr rnd r j)"
  let ?C = "mk_tensor ?n ?m (\<lambda>i j. fl_mul rnd (Fin 2) (cross rnd l i r j))"
  let ?D = "mk_tensor ?n ?m
              (\<lambda>i j. fl_sub rnd (row_sqr rnd l i) (fl_mul rnd (Fin 2) (cross rnd l i r j)))"
  have sub: "tf_sub rnd ?A ?C = Inr ?D"
    unfolding tf_sub_def
    by (subst tf_binop_same) (auto intro: mk_tensor_cong simp: mk_tensor_entry)
  have add: "tf_add rnd ?D ?B = Inr (mk_tensor ?n ?m (\<lambda>i j. sqr_sum_entry rnd l i r j))"
    unfolding tf_add_def
    by (subst tf_binop_same) (auto intro: mk_tensor_cong simp: mk_tensor_entry sqr_sum_entry_def)
  show ?thesis
    by (simp del: One_nat_def add: get_tensor_sqr_left get_tensor_sqr_right
        matmul_transpose scalar_mul_mk assms sub add)
qed

lemma euclidean_sqr_sum_closed:
  assumes "wf_tensor l" "wf_tensor r" "ncols l = ncols r"
  shows "euclidean_sqr_sum rnd l r =
           Inr (mk_tensor (nrows l) (nrows r)
             (\<lambda>i j. sqr_sum_entry rnd (tf_cast_float32 rnd l) i (tf_cast_float32 rnd r) j))"
  using sqr_sum_closed_cast [of "tf_cast_float32 rnd l" "tf_cast_float32 rnd r" rnd] assms
  by (simp del: One_nat_def add: euclidean_sqr_sum_def cast_left_and_right_to_tensors_def
      tf_convert_to_tensor_def get_rows_counts_def)

lemma clamp_sqrt_map:
  "clamp_sqrt rnd s = s\<lparr>elems := map (clamp_entry rnd) (elems s)\<rparr>"
  by (simp add: clamp_sqrt_def tf_where_def tf_greater_def tf_sqrt_def tf_cast_float32_def
      zip_map_map zip_same_conv_map clamp_entry_def comp_def if_distrib [of "fl_cast rnd"])

lemma clamp_sqrt_mk:
  "clamp_sqrt rnd (mk_tensor n m f) = mk_tensor n m (\<lambda>i j. clamp_entry rnd (f i j))"
  by (simp add: clamp_sqrt_map mk_tensor_def)

lemma clamp_sqrt_entry:
  assumes "wf_tensor s" "a < nrows s" "b < ncols s"
  shows "entry (clamp_sqrt rnd s) a b = clamp_entry rnd (entry s a b)"
  unfolding clamp_sqrt_map using assms by (rule entry_map)

lemma tf_cdist_euclidean_closed:
  assumes "wf_tensor l" "wf_tensor r" "ncols l = ncols r"
  shows "tf_cdist_euclidean rnd l r =
    Inr (mk_tensor (nrows l) (nrows r)
      (\<lambda>i j. clamp_entry rnd
                (sqr_sum_entry rnd (tf_cast_float32 rnd l) i (tf_cast_float32 rnd r) j)))"
  by (simp add: tf_cdist_euclidean_def euclidean_sqr_sum_closed assms clamp_sqrt_mk)

section \<open>Closed form of the cosine routine\<close>

lemma norm_length [simp]: "length (tf_norm_axis1 rnd t) = nrows t"
  by (simp add: tf_norm_axis1_def)

lemma norm_nth: "i < nrows t \<Longrightarrow> tf_norm_axis1 rnd t ! i = row_norm rnd t i"
  by (simp add: tf_norm_axis1_def row_norm_def)

lemma bentry_col:
  "nrows y = n \<Longrightarrow> ncols y = 1 \<Longrightarrow> i < n \<Longrightarrow> bentry y i j = elems y ! i"
  by (auto simp: bentry_def entry_def)

lemma bentry_row:
  "nrows y = 1 \<Longrightarrow> ncols y = m \<Longrightarrow> j < m \<Longrightarrow> bentry y i j = elems y ! j"
  by (auto simp: bentry_def entry_def)

lemma tf_div_col:
  assumes "nrows y = n" "ncols y = 1"
  shows "tf_div rnd (mk_tensor n m f) y =
           Inr (mk_tensor n m (\<lambda>i j. fl_div rnd (f i j) (elems y ! i)))"
proof -
  have "mk_tensor n m (\<lambda>i j. fl_div rnd (bentry (mk_tensor n m f) i j) (bentry y i j)) =
        mk_tensor n m (\<lambda>i j. fl_div rnd (f i j) (elems y ! i))"
    by (rule mk_tensor_cong) (simp add: bentry_entry mk_tensor_entry bentry_col [OF assms])
  then show ?thesis using assms by (simp add: tf_div_def tf_binop_def)
qed

lemma tf_div_row:
  assumes "nrows y = 1" "ncols y = m"
  shows "tf_div rnd (mk_tensor n m f) y =
           Inr (mk_tensor n m (\<lambda>i j. fl_div rnd (f i j) (elems y ! j)))"
proof -
  have "mk_tensor n m (\<lambda>i j. fl_div rnd (bentry (mk_tensor n m f) i j) (bentry y i j)) =
        mk_tensor n m (\<lambda>i j. fl_div rnd (f i j) (elems y ! j))"
    by (rule mk_tensor_cong) (simp add: bentry_entry mk_tensor_entry bentry_row [OF assms])
  then show ?thesis using assms by (simp add: tf_div_def tf_binop_def)
qed

lemma cos_closed_cast:
  assumes "ncols l = ncols r"
  shows "(case get_tensor_reshaped_norm rnd l (-1, 1) of
            Inl e \<Rightarrow> Inl e
          | Inr norm_left \<Rightarrow>
          case get_tensor_reshaped_norm rnd r (1, -1) of
            Inl e \<Rightarrow> Inl e
          | Inr norm_right \<Rightarrow>
          case tf_matmul rnd l (tf_transpose r) of
            Inl e \<Rightarrow> Inl e
          | Inr mm \<Rightarrow>
          case tf_div rnd mm norm_left of
            Inl e \<Rightarrow> Inl e
          | Inr q \<Rightarrow>
          case tf_div rnd q norm_right of
            Inl e \<Rightarrow> Inl e
          | Inr cos_mat \<Rightarrow>
              (let distance = tf_scalar_sub rnd (Fin 1) cos_mat;
                   distance = tf_cast_float32 rnd distance
               in Inr distance)) =
         Inr (mk_tensor (nrows l) (nrows r) (\<lambda>i j. fl_cast rnd (cos_entry rnd l i r j)))"
proof -
  let ?n = "nrows l" and ?m = "nrows r"
  let ?nl = "\<lparr>nrows = length (tf_norm_axis1 rnd l), ncols = 1, elems = tf_norm_axis1 rnd l\<rparr>"
  let ?nr = "\<lparr>nrows = 1, ncols = length (tf_norm_axis1 rnd r), elems = tf_norm_axis1 rnd r\<rparr>"
  let ?q = "mk_tensor ?n ?m (\<lambda>i j. fl_div rnd (cross rnd l i r j) (row_norm rnd l i))"
  have "tf_div rnd (mk_tensor ?n ?m (\<lambda>i j. cross rnd l i r j)) ?nl =
        Inr (mk_tensor ?n ?m (\<lambda>i j. fl_div rnd (cross rnd l i r j) (elems ?nl ! i)))"
    by (rule tf_div_col) simp_all
  also have "mk_tensor ?n ?m (\<lambda>i j. fl_div rnd (cross rnd l i r j) (elems ?nl ! i)) = ?q"
    by (rule mk_tensor_cong) (simp add: norm_nth)
  finally have d1: "tf_div rnd (mk_tensor ?n ?m (\<lambda>i j. cross rnd l i r j)) ?nl = Inr ?q" .
  have "tf_div rnd ?q ?nr =
        Inr (mk_tensor ?n ?m
          (\<lambda>i j. fl_div rnd (fl_div rnd (cross rnd l i r j) (row_norm rnd l i)) (elems ?nr ! j)))"
    by (rule tf_div_row) simp_all
  also have "mk_tensor ?n ?m
          (\<lambda>i j. fl_div rnd (fl_div rnd (cross rnd l i r j) (row_norm rnd l i)) (elems ?nr ! j)) =
        mk_tensor ?n ?m
          (\<lambda>i j. fl_div rnd (fl_div rnd (cross rnd l i r j) (row_norm rnd l i)) (row_norm rnd r j))"
    by (rule mk_tensor_cong) (simp add: norm_nth)
  finally have d2: "tf_div rnd ?q ?nr =
     Inr (mk_tensor ?n ?m
       (\<lambda>i j. fl_div rnd (fl_div rnd (cross rnd l i r j) (row_norm rnd l i)) (row_norm rnd r j)))" .
  show ?thesis
    using d1 d2
    by (simp del: One_nat_def add: get_tensor_reshaped_norm_def
        tf_reshape_col tf_reshape_row matmul_transpose assms scalar_sub_mk tf_cast_mk cos_entry_def)
qed

lemma tf_cdist_cos_closed:
  assumes "ncols l = ncols r"
  shows "tf_cdist_cos rnd l r =
           Inr (mk_tensor (nrows l) (nrows r)
             (\<lambda>i j. fl_cast rnd
                (cos_entry rnd (tf_cast_float32 rnd l) i (tf_cast_float32 rnd r) j)))"
  using cos_closed_cast [of "tf_cast_float32 rnd l" "tf_cast_float32 rnd r" rnd] assms
  by (simp del: One_nat_def add: tf_cdist_cos_def cast_left_and_right_to_tensors_def
      tf_convert_to_tensor_def)



section \<open>Dispatch, errors and shapes\<close>

text \<open>
  C9. With the metric \<^verbatim>\<open>'euclidean'\<close> the dispatcher returns what \<^verbatim>\<open>tf_cdist_euclidean\<close>
  returns, and with \<^verbatim>\<open>'cosine'\<close> what \<^verbatim>\<open>tf_cdist_cos\<close> returns, for all operands (and
  whatever the rounding of the arithmetic is).
\<close>

theorem tf_cdist_dispatch:
  "tf_cdist rnd left right ''euclidean'' = tf_cdist_euclidean rnd left right \<and>
   tf_cdist rnd left right ''cosine'' = tf_cdist_cos rnd left right"
  by (simp add: tf_cdist_def)

text \<open>
  C4. A metric other than \<^verbatim>\<open>'euclidean'\<close> and \<^verbatim>\<open>'cosine'\<close> makes the dispatcher fail with
  the \<^verbatim>\<open>ValueError\<close> whose message carries the metric, whatever the operands are (also
  operands on which the routines themselves would fail): nothing is computed on them.
\<close>

theorem tf_cdist_unsupported_metric:
  assumes "metric \<noteq> ''euclidean''" "metric \<noteq> ''cosine''"
  shows "tf_cdist rnd left right metric =
           Inl (ValueError (''Metric type not understood: value '' @ metric @ '' is not valid!''))"
  using assms by (simp add: tf_cdist_def)

theorem tf_cdist_unsupported_metric_witness:
  "''manhattan'' \<noteq> ''euclidean'' \<and> ''manhattan'' \<noteq> ''cosine'' \<and>
   tf_cdist float32 ex_left ex_right ''manhattan'' =
     Inl (ValueError ''Metric type not understood: value manhattan is not valid!'')"
  using tf_cdist_unsupported_metric [of "''manhattan''" float32 ex_left ex_right] by simp



text \<open>
  C7. For well-formed operands with the same number of columns and both metrics, the
  call returns a matrix with as many rows as the left operand and as many columns as the
  right operand has rows, whatever the number of columns of the operands is; when one of
  the operands has no rows the result has no elements, and the call does not fail.
\<close>

theorem tf_cdist_shape:
  assumes "wf_tensor left" "wf_tensor right" "ncols left = ncols right"
    and "metric = ''euclidean'' \<or> metric = ''cosine''"
  shows "\<exists>m. tf_cdist rnd left right metric = Inr m \<and>
             nrows m = nrows left \<and> ncols m = nrows right \<and>
             length (elems m) = nrows left * nrows right \<and>
             (nrows left = 0 \<or> nrows right = 0 \<longrightarrow> elems m = [])"
proof -
  obtain f where "tf_cdist rnd left right metric = Inr (mk_tensor (nrows left) (nrows right) f)"
    using assms by (auto simp: tf_cdist_def tf_cdist_euclidean_closed tf_cdist_cos_closed)
  then show ?thesis by (simp add: mk_tensor_elems_empty)
qed

theorem tf_cdist_shape_witness:
  "wf_tensor ex_empty \<and> wf_tensor ex_right \<and> ncols ex_empty = ncols ex_right \<and>
   tf_cdist float32 ex_empty ex_right ''euclidean'' = Inr \<lparr>nrows = 0, ncols = 2, elems = []\<rparr> \<and>
   tf_cdist float32 ex_right ex_empty ''cosine'' = Inr \<lparr>nrows = 2, ncols = 0, elems = []\<rparr>"
proof -
  have h: "wf_tensor ex_empty" "wf_tensor ex_right" "ncols ex_empty = ncols ex_right"
    by (simp_all add: ex_empty_def ex_right_def wf_tensor_def)
  have n: "nrows ex_empty = 0" "nrows ex_right = 2"
    by (simp_all add: ex_empty_def ex_right_def)
  from tf_cdist_shape [OF h, of "''euclidean''" float32]
    tf_cdist_shape [OF h(2,1) h(3) [symmetric], of "''cosine''" float32]
  show ?thesis using h n by auto
qed

section \<open>Exact arithmetic on finite operands\<close>

lemma exact_eq: "exact = Fin"
  by (rule ext) (simp add: exact_def)

lemma fl_cast_exact [simp]: "fl_cast Fin x = x"
  by (cases x) simp_all

lemma tf_cast_exact [simp]: "tf_cast_float32 Fin t = t"
proof -
  have "map (fl_cast Fin) (elems t) = elems t" by (rule map_idI) simp
  then show ?thesis by (simp add: tf_cast_float32_def)
qed

lemma fl_sum_map_fin:
  "(\<And>x. x \<in> set xs \<Longrightarrow> f x = Fin (g x)) \<Longrightarrow>
   fl_sum Fin (map f xs) = Fin (sum_list (map g xs))"
  by (induction xs) simp_all

lemma fl_sum_fin:
  assumes "\<And>k. k < d \<Longrightarrow> f k = Fin (g k)"
  shows "fl_sum Fin (map f [0..<d]) = Fin (\<Sum>k<d. g k)"
proof -
  have "fl_sum Fin (map f [0..<d]) = Fin (sum_list (map g [0..<d]))"
    by (rule fl_sum_map_fin) (simp add: assms)
  also have "sum_list (map g [0..<d]) = (\<Sum>k<d. g k)"
    by (simp add: interv_sum_list_conv_sum_set_nat atLeast0LessThan)
  finally show ?thesis .
qed

lemma sq_expand:
  fixes a b :: "nat \<Rightarrow> real"
  shows "(\<Sum>k<d. (a k)\<^sup>2) - 2 * (\<Sum>k<d. a k * b k) + (\<Sum>k<d. (b k)\<^sup>2) =
         (\<Sum>k<d. (a k - b k)\<^sup>2)"
  by (simp add: power2_diff sum.distrib sum_subtractf sum_distrib_left algebra_simps)

lemma row_sqr_fin:
  assumes "wf_tensor t" "all_fin t" "i < nrows t"
  shows "row_sqr Fin t i = Fin (sq_norm t i)"
  unfolding row_sqr_def sq_norm_def
proof (rule fl_sum_fin)
  fix k assume "k < ncols t"
  then have "entry t i k = Fin (val (entry t i k))" using assms by (rule_tac entry_fin)
  then show "fl_pow Fin (entry t i k) 2 = Fin ((val (entry t i k))\<^sup>2)"
    by (metis fl_pow.simps(1))
qed

lemma cross_fin:
  assumes "wf_tensor l" "all_fin l" "i < nrows l" "wf_tensor r" "all_fin r" "j < nrows r"
    and "ncols l = ncols r"
  shows "cross Fin l i r j = Fin (dot l i r j)"
  unfolding cross_def dot_def
proof (rule fl_sum_fin)
  fix k assume k: "k < ncols l"
  then have "entry l i k = Fin (val (entry l i k))" using assms by (rule_tac entry_fin)
  moreover have "entry r j k = Fin (val (entry r j k))"
    using assms k by (rule_tac entry_fin) simp_all
  ultimately show "fl_mul Fin (entry l i k) (entry r j k) =
      Fin (val (entry l i k) * val (entry r j k))"
    by (metis fl_mul.simps(1))
qed

lemma sq_dist_expand:
  "ncols l = ncols r \<Longrightarrow> sq_norm l i - 2 * dot l i r j + sq_norm r j = sq_dist l i r j"
  unfolding sq_norm_def dot_def sq_dist_def by (simp add: sq_expand)

lemma sq_dist_nonneg: "0 \<le> sq_dist l i r j"
  unfolding sq_dist_def by (rule sum_nonneg) simp

lemma sq_norm_nonneg: "0 \<le> sq_norm t i"
  unfolding sq_norm_def by (rule sum_nonneg) simp

lemma sqr_sum_entry_fin:
  assumes "wf_tensor l" "all_fin l" "i < nrows l" "wf_tensor r" "all_fin r" "j < nrows r"
    and "ncols l = ncols r"
  shows "sqr_sum_entry Fin l i r j = Fin (sq_dist l i r j)"
proof -
  have "sqr_sum_entry Fin l i r j = Fin (sq_norm l i - 2 * dot l i r j + sq_norm r j)"
    by (simp add: sqr_sum_entry_def row_sqr_fin cross_fin assms fl_sub_def)
  then show ?thesis by (simp add: sq_dist_expand assms)
qed

lemma clamp_entry_exact: "0 \<le> s \<Longrightarrow> clamp_entry Fin (Fin s) = Fin (sqrt s)"
  by (auto simp: clamp_entry_def)

text \<open>
  C1. In exact arithmetic, for matrices of finite values with the same number of columns,
  the entry \<open>(i, j)\<close> of \<^verbatim>\<open>sqr_sum\<close>, computed as the tiled squared norm of row \<open>i\<close> of the
  left operand minus twice the cross term plus the tiled squared norm of row \<open>j\<close> of the
  right operand, is the squared norm of the difference of the two rows, and the entry of
  the result of \<^verbatim>\<open>tf_cdist_euclidean\<close> is its square root, the Euclidean distance of the
  two rows.
\<close>

theorem tf_cdist_euclidean_entry:
  assumes "wf_tensor left" "wf_tensor right" "all_fin left" "all_fin right"
    and "ncols left = ncols right" "i < nrows left" "j < nrows right"
  shows "\<exists>sqr_sum distance.
           euclidean_sqr_sum exact left right = Inr sqr_sum \<and>
           entry sqr_sum i j =
             fl_add exact
               (fl_sub exact (row_sqr exact left i)
                  (fl_mul exact (Fin 2) (cross exact left i right j)))
               (row_sqr exact right j) \<and>
           entry sqr_sum i j = Fin (sq_dist left i right j) \<and>
           tf_cdist_euclidean exact left right = Inr distance \<and>
           entry distance i j = Fin (sqrt (sq_dist left i right j))"
proof -
  have s: "sqr_sum_entry Fin left i right j = Fin (sq_dist left i right j)"
    using assms by (intro sqr_sum_entry_fin)
  have c: "clamp_entry Fin (Fin (sq_dist left i right j)) = Fin (sqrt (sq_dist left i right j))"
    by (rule clamp_entry_exact) (rule sq_dist_nonneg)
  show ?thesis
    unfolding exact_eq using assms
    by (simp add: euclidean_sqr_sum_closed tf_cdist_euclidean_closed mk_tensor_entry s c)
      (simp add: sqr_sum_entry_def [symmetric] s)
qed

theorem tf_cdist_euclidean_entry_witness:
  "wf_tensor ex_left \<and> wf_tensor ex_right \<and> all_fin ex_left \<and> all_fin ex_right \<and>
   ncols ex_left = ncols ex_right \<and> 0 < nrows ex_left \<and> 1 < nrows ex_right \<and>
   sq_dist ex_left 0 ex_right 1 = 242 \<and>
   (\<exists>sqr_sum distance.
      euclidean_sqr_sum exact ex_left ex_right = Inr sqr_sum \<and>
      entry sqr_sum 0 1 = Fin 242 \<and>
      tf_cdist_euclidean exact ex_left ex_right = Inr distance \<and>
      entry distance 0 1 = Fin (sqrt 242))"
proof -
  have h: "wf_tensor ex_left" "wf_tensor ex_right" "all_fin ex_left" "all_fin ex_right"
    "ncols ex_left = ncols ex_right" "0 < nrows ex_left" "1 < nrows ex_right"
    by (simp_all add: ex_left_def ex_right_def wf_tensor_def all_fin_def)
  have d: "sq_dist ex_left 0 ex_right 1 = 242"
    by (simp add: sq_dist_def ex_left_def ex_right_def entry_def numeral_2_eq_2 lessThan_Suc)
  show ?thesis
    using tf_cdist_euclidean_entry [OF h] h d by auto
qed

section \<open>Self-comparison under the Euclidean metric\<close>

lemma fl_pow2: "fl_pow rnd x 2 = fl_mul rnd x x"
  by (cases x) (simp_all add: power2_eq_square)

lemma fl_mul_commute: "fl_mul rnd x y = fl_mul rnd y x"
  by (cases x; cases y) (simp_all add: mult.commute)

lemma row_sqr_cross: "row_sqr rnd t i = cross rnd t i t i"
  by (simp add: row_sqr_def cross_def fl_pow2)

lemma cross_commute: "ncols l = ncols r \<Longrightarrow> cross rnd l i r j = cross rnd r j l i"
  by (simp add: cross_def fl_mul_commute)

lemma diag_not_positive:
  "\<not> fl_greater (fl_add Fin (fl_sub Fin a (fl_mul Fin (Fin 2) a)) a) (Fin 0)"
  by (cases a) (simp_all add: fl_sub_def)

lemma sqr_sum_swap: "fl_add Fin (fl_sub Fin a m) b = fl_add Fin (fl_sub Fin b m) a"
  by (cases a; cases m; cases b) (simp_all add: fl_sub_def)

lemma sqr_sum_entry_self: "\<not> fl_greater (sqr_sum_entry Fin t i t i) (Fin 0)"
  by (simp add: sqr_sum_entry_def row_sqr_cross diag_not_positive)

lemma sqr_sum_entry_sym: "sqr_sum_entry Fin t i t j = sqr_sum_entry Fin t j t i"
proof -
  have "cross Fin t i t j = cross Fin t j t i" by (rule cross_commute) simp
  then show ?thesis by (simp add: sqr_sum_entry_def sqr_sum_swap)
qed

text \<open>
  C8, as the code has it. In exact arithmetic, for every well-formed matrix \<open>X\<close>, the matrix
  \<^verbatim>\<open>tf_cdist(X, X, 'euclidean')\<close> has the entry zero at every place \<open>(i, i)\<close> of the diagonal,
  and its entry at \<open>(i, j)\<close> is its entry at \<open>(j, i)\<close>.
\<close>

theorem tf_cdist_euclidean_self:
  assumes "wf_tensor X" "i < nrows X" "j < nrows X"
  shows "\<exists>d. tf_cdist exact X X ''euclidean'' = Inr d \<and>
             entry d i i = Fin 0 \<and> entry d i j = entry d j i"
  unfolding exact_eq
  using assms sqr_sum_entry_self [of X i] sqr_sum_entry_sym [of X i j]
  by (simp add: tf_cdist_def tf_cdist_euclidean_closed mk_tensor_entry clamp_entry_def)

theorem tf_cdist_euclidean_self_witness:
  "wf_tensor ex_left \<and> 0 < nrows ex_left \<and> 1 < nrows ex_left \<and>
   (\<exists>d. tf_cdist exact ex_left ex_left ''euclidean'' = Inr d \<and>
        entry d 0 0 = Fin 0 \<and> entry d 0 1 = entry d 1 0)"
proof -
  have h: "wf_tensor ex_left" "0 < nrows ex_left" "1 < nrows ex_left"
    by (simp_all add: ex_left_def wf_tensor_def)
  show ?thesis using tf_cdist_euclidean_self [OF h] h by simp
qed

section \<open>The cosine routine in exact arithmetic\<close>

lemma cauchy_schwarz_sum:
  fixes a b :: "nat \<Rightarrow> real"
  shows "(\<Sum>k<d. a k * b k)\<^sup>2 \<le> (\<Sum>k<d. (a k)\<^sup>2) * (\<Sum>k<d. (b k)\<^sup>2)"
proof -
  define A where "A = (\<Sum>k<d. (a k)\<^sup>2)"
  define B where "B = (\<Sum>k<d. (b k)\<^sup>2)"
  define C where "C = (\<Sum>k<d. a k * b k)"
  have B0: "0 \<le> B" unfolding B_def by (rule sum_nonneg) simp
  show ?thesis
  proof (cases "B = 0")
    case True
    then have "\<forall>k\<in>{..<d}. (b k)\<^sup>2 = 0"
      unfolding B_def by (subst (asm) sum_nonneg_eq_0_iff) simp_all
    then have "C = 0" unfolding C_def by simp
    then show ?thesis using True by (simp add: A_def B_def C_def)
  next
    case False
    then have Bpos: "0 < B" using B0 by simp
    have h1: "(\<Sum>k<d. (B * a k)\<^sup>2) = B\<^sup>2 * A"
      by (simp add: A_def power_mult_distrib sum_distrib_left)
    have h2: "(\<Sum>k<d. (C * b k)\<^sup>2) = C\<^sup>2 * B"
      by (simp add: B_def power_mult_distrib sum_distrib_left)
    have h3: "(\<Sum>k<d. 2 * (B * a k) * (C * b k)) = 2 * B * C * C"
    proof -
      have "(\<Sum>k<d. 2 * (B * a k) * (C * b k)) = (\<Sum>k<d. (2 * B * C) * (a k * b k))"
        by (rule sum.cong) simp_all
      also have "\<dots> = 2 * B * C * C" by (simp add: C_def sum_distrib_left)
      finally show ?thesis .
    qed
    have "0 \<le> (\<Sum>k<d. (B * a k - C * b k)\<^sup>2)" by (rule sum_nonneg) simp
    also have "(\<Sum>k<d. (B * a k - C * b k)\<^sup>2) =
               (\<Sum>k<d. (B * a k)\<^sup>2) + (\<Sum>k<d. (C * b k)\<^sup>2) - (\<Sum>k<d. 2 * (B * a k) * (C * b k))"
      by (simp add: power2_diff sum.distrib sum_subtractf)
    also have "\<dots> = B\<^sup>2 * A + C\<^sup>2 * B - 2 * B * C * C"
      by (simp only: h1 h2 h3)
    also have "\<dots> = B * (A * B - C\<^sup>2)"
      by (simp add: power2_eq_square algebra_simps)
    finally have "0 \<le> B * (A * B - C\<^sup>2)" .
    then have "0 \<le> A * B - C\<^sup>2" using Bpos by (simp add: zero_le_mult_iff)
    then show ?thesis by (simp add: A_def B_def C_def)
  qed
qed

lemma dot_bound:
  assumes "ncols l = ncols r"
  shows "\<bar>dot l i r j\<bar> \<le> sqrt (sq_norm l i) * sqrt (sq_norm r j)"
proof -
  have "(dot l i r j)\<^sup>2 \<le> sq_norm l i * sq_norm r j"
    unfolding dot_def sq_norm_def assms [symmetric] by (rule cauchy_schwarz_sum)
  then have "sqrt ((dot l i r j)\<^sup>2) \<le> sqrt (sq_norm l i * sq_norm r j)"
    by (rule real_sqrt_le_mono)
  then show ?thesis by (simp add: real_sqrt_mult)
qed

lemma cos_sim_range:
  assumes "ncols l = ncols r" "sq_norm l i \<noteq> 0" "sq_norm r j \<noteq> 0"
  shows "- 1 \<le> dot l i r j / sqrt (sq_norm l i) / sqrt (sq_norm r j) \<and>
         dot l i r j / sqrt (sq_norm l i) / sqrt (sq_norm r j) \<le> 1"
proof -
  define N where "N = sqrt (sq_norm l i) * sqrt (sq_norm r j)"
  define x where "x = dot l i r j / N"
  have p: "0 < N"
    unfolding N_def using assms sq_norm_nonneg [of l i] sq_norm_nonneg [of r j] by simp
  have "\<bar>dot l i r j\<bar> \<le> N" unfolding N_def by (rule dot_bound [OF assms(1)])
  then have "\<bar>dot l i r j\<bar> / N \<le> 1" using p by (simp add: pos_divide_le_eq)
  moreover have "\<bar>x\<bar> = \<bar>dot l i r j\<bar> / N"
    unfolding x_def by (simp only: abs_divide abs_of_pos [OF p])
  ultimately have "\<bar>x\<bar> \<le> 1" by simp
  then have "- 1 \<le> x \<and> x \<le> 1" by (simp add: abs_le_iff)
  moreover have "dot l i r j / sqrt (sq_norm l i) / sqrt (sq_norm r j) = x"
    unfolding x_def N_def by (simp only: divide_divide_eq_left)
  ultimately show ?thesis by simp
qed

lemma row_norm_fin:
  assumes "wf_tensor t" "all_fin t" "i < nrows t"
  shows "row_norm Fin t i = Fin (sqrt (sq_norm t i))"
proof -
  have "fl_sum Fin (map (\<lambda>k. fl_mul Fin (entry t i k) (entry t i k)) [0..<ncols t]) =
        Fin (sq_norm t i)"
    unfolding sq_norm_def
  proof (rule fl_sum_fin)
    fix k assume "k < ncols t"
    then have "entry t i k = Fin (val (entry t i k))" using assms by (rule_tac entry_fin)
    then show "fl_mul Fin (entry t i k) (entry t i k) = Fin ((val (entry t i k))\<^sup>2)"
      by (metis fl_mul.simps(1) power2_eq_square)
  qed
  then show ?thesis using sq_norm_nonneg [of t i] by (simp add: row_norm_def)
qed

lemma cos_entry_fin:
  assumes "wf_tensor l" "all_fin l" "i < nrows l" "wf_tensor r" "all_fin r" "j < nrows r"
    and "ncols l = ncols r" "sq_norm l i \<noteq> 0" "sq_norm r j \<noteq> 0"
  shows "cos_entry Fin l i r j =
           Fin (1 - dot l i r j / sqrt (sq_norm l i) / sqrt (sq_norm r j))"
  using assms by (simp add: cos_entry_def cross_fin row_norm_fin fl_sub_def)

lemma cos_entry_nonneg:
  assumes "wf_tensor l" "all_fin l" "i < nrows l" "wf_tensor r" "all_fin r" "j < nrows r"
    and "ncols l = ncols r" "sq_norm l i \<noteq> 0" "sq_norm r j \<noteq> 0"
  shows "fl_nonneg (cos_entry Fin l i r j)"
  using cos_sim_range [OF assms(7,8,9)] by (simp add: cos_entry_fin assms)



text \<open>
  C10, as the code has it. In exact arithmetic, for matrices of finite values with the
  same number of columns, at every place whose two rows have a nonzero norm, the entry of
  the result of \<^verbatim>\<open>tf_cdist_cos\<close> is a finite value between 0 and 2 (by the Cauchy-Schwarz
  inequality).
\<close>

theorem tf_cdist_cos_range:
  assumes "wf_tensor left" "wf_tensor right" "all_fin left" "all_fin right"
    and "ncols left = ncols right" "i < nrows left" "j < nrows right"
    and "sq_norm left i \<noteq> 0" "sq_norm right j \<noteq> 0"
  shows "\<exists>distance c. tf_cdist_cos exact left right = Inr distance \<and>
           entry distance i j = Fin c \<and> 0 \<le> c \<and> c \<le> 2"
proof -
  let ?c = "1 - dot left i right j / sqrt (sq_norm left i) / sqrt (sq_norm right j)"
  have "cos_entry Fin left i right j = Fin ?c" using assms by (intro cos_entry_fin)
  moreover have "0 \<le> ?c \<and> ?c \<le> 2"
    using cos_sim_range [OF assms(5,8,9)] by simp
  ultimately show ?thesis
    unfolding exact_eq using assms(5,6,7) by (simp add: tf_cdist_cos_closed mk_tensor_entry)
qed

theorem tf_cdist_cos_range_witness:
  "wf_tensor ex_left \<and> wf_tensor ex_right \<and> all_fin ex_left \<and> all_fin ex_right \<and>
   ncols ex_left = ncols ex_right \<and> 1 < nrows ex_left \<and> 1 < nrows ex_right \<and>
   sq_norm ex_left 1 = 25 \<and> sq_norm ex_right 1 = 313 \<and>
   (\<exists>distance c. tf_cdist_cos exact ex_left ex_right = Inr distance \<and>
      entry distance 1 1 = Fin c \<and> 0 \<le> c \<and> c \<le> 2)"
proof -
  have h: "wf_tensor ex_left" "wf_tensor ex_right" "all_fin ex_left" "all_fin ex_right"
    "ncols ex_left = ncols ex_right" "1 < nrows ex_left" "1 < nrows ex_right"
    by (simp_all add: ex_left_def ex_right_def wf_tensor_def all_fin_def)
  have v: "sq_norm ex_left 1 = 25" "sq_norm ex_right 1 = 313"
    by (simp_all add: sq_norm_def ex_left_def ex_right_def entry_def numeral_2_eq_2
        lessThan_Suc)
  have n: "sq_norm ex_left 1 \<noteq> 0" "sq_norm ex_right 1 \<noteq> 0" using v by simp_all
  show ?thesis using tf_cdist_cos_range [OF h n] h v by simp
qed

section \<open>Properties of the binary32 rounding\<close>

lemma pow2_powr: "pow2 e = 2 powr (real_of_int e)"
proof (cases "0 \<le> e")
  case True
  then have "real_of_int e = real (nat e)" by simp
  then have "2 powr (real_of_int e) = (2::real) ^ nat e"
    by (simp only: powr_realpow [of 2 "nat e"] zero_less_numeral)
  then show ?thesis using True by (simp add: pow2_def)
next
  case False
  then have "real_of_int e = - real (nat (- e))" by simp
  then have "2 powr (real_of_int e) = 1 / (2::real) ^ nat (- e)"
    by (simp only: powr_minus_divide powr_realpow [of 2 "nat (- e)"] zero_less_numeral)
  then show ?thesis using False by (simp add: pow2_def)
qed

lemma pow2_pos [simp]: "0 < pow2 e"
  by (simp add: pow2_powr)

lemma pow2_nonneg [simp]: "0 \<le> pow2 e"
  by (simp add: pow2_powr)

lemma pow2_mono: "e1 \<le> e2 \<Longrightarrow> pow2 e1 \<le> pow2 e2"
  by (simp add: pow2_powr)

lemma expo_up_eq:
  assumes "e0 \<le> e" "nat (e - e0) \<le> n" "e0 < e \<Longrightarrow> pow2 e \<le> x" "x < pow2 (e + 1)"
  shows "expo_up n e0 x = e"
  using assms
proof (induction n arbitrary: e0)
  case 0
  then show ?case by simp
next
  case (Suc n)
  show ?case
  proof (cases "x < pow2 (e0 + 1)")
    case True
    have "e0 = e"
    proof (rule ccontr)
      assume "e0 \<noteq> e"
      then have lt: "e0 < e" using Suc.prems(1) by simp
      then have "pow2 (e0 + 1) \<le> pow2 e" by (intro pow2_mono) simp
      also have "\<dots> \<le> x" using Suc.prems(3) lt by simp
      finally show False using True by simp
    qed
    then show ?thesis using True by simp
  next
    case False
    have lt: "e0 < e"
    proof (rule ccontr)
      assume "\<not> e0 < e"
      then have "e0 = e" using Suc.prems(1) by simp
      then show False using False Suc.prems(4) by simp
    qed
    have "expo_up n (e0 + 1) x = e"
    proof (rule Suc.IH)
      show "e0 + 1 \<le> e" using lt by simp
      show "nat (e - (e0 + 1)) \<le> n" using Suc.prems(2) lt by simp
      show "pow2 e \<le> x" using Suc.prems(3) lt by simp
      show "x < pow2 (e + 1)" by (rule Suc.prems(4))
    qed
    then show ?thesis using False by simp
  qed
qed

lemma expo_down_eq:
  assumes "e \<le> e0" "nat (e0 - e) \<le> n" "x < pow2 (e + 1)" "pow2 e \<le> x \<or> nat (e0 - e) = n"
  shows "expo_down n e0 x = e"
  using assms
proof (induction n arbitrary: e0)
  case 0
  then show ?case by simp
next
  case (Suc n)
  show ?case
  proof (cases "pow2 e0 \<le> x")
    case True
    have "e0 = e"
    proof (rule ccontr)
      assume "e0 \<noteq> e"
      then have "e + 1 \<le> e0" using Suc.prems(1) by simp
      then have "pow2 (e + 1) \<le> pow2 e0" by (rule pow2_mono)
      then show False using True Suc.prems(3) by simp
    qed
    then show ?thesis using True by simp
  next
    case False
    have lt: "e < e0"
    proof (rule ccontr)
      assume "\<not> e < e0"
      then have "e0 = e" using Suc.prems(1) by simp
      then show False using False Suc.prems(4) by simp
    qed
    have "expo_down n (e0 - 1) x = e"
    proof (rule Suc.IH)
      show "e \<le> e0 - 1" using lt by simp
      show "nat (e0 - 1 - e) \<le> n" using Suc.prems(2) lt by simp
      show "x < pow2 (e + 1)" by (rule Suc.prems(3))
      show "pow2 e \<le> x \<or> nat (e0 - 1 - e) = n" using Suc.prems(4) lt by auto
    qed
    then show ?thesis using False by simp
  qed
qed

lemma expo32_eq:
  assumes "- 126 \<le> e" "e \<le> 127" "pow2 e \<le> \<bar>x\<bar>" "\<bar>x\<bar> < pow2 (e + 1)"
  shows "expo32 x = e"
proof (cases "1 \<le> \<bar>x\<bar>")
  case True
  have "0 \<le> e"
  proof (rule ccontr)
    assume "\<not> 0 \<le> e"
    then have "e + 1 \<le> 0" by simp
    then have "pow2 (e + 1) \<le> pow2 0" by (rule pow2_mono)
    then show False using True assms(4) by (simp add: pow2_def)
  qed
  then have "expo_up 127 0 \<bar>x\<bar> = e" using assms by (intro expo_up_eq) simp_all
  then show ?thesis using True by (simp add: expo32_def)
next
  case False
  have "e \<le> - 1"
  proof (rule ccontr)
    assume "\<not> e \<le> - 1"
    then have "0 \<le> e" by simp
    then have "pow2 0 \<le> pow2 e" by (rule pow2_mono)
    then show False using False assms(3) by (simp add: pow2_def)
  qed
  then have "expo_down 125 (- 1) \<bar>x\<bar> = e" using assms by (intro expo_down_eq) simp_all
  then show ?thesis using False by (simp add: expo32_def)
qed

lemma round_even_eq:
  assumes "of_int n - 1 / 2 < x" "x < of_int n + 1 / 2"
  shows "round_even x = n"
proof (cases "of_int n \<le> x")
  case True
  then have "\<lfloor>x\<rfloor> = n" using assms(2) by (intro floor_unique) simp_all
  then show ?thesis using assms(2) by (simp add: round_even_def Let_def)
next
  case False
  then have f: "\<lfloor>x\<rfloor> = n - 1" using assms(1) by (intro floor_unique) simp_all
  then show ?thesis using assms(1) by (simp add: round_even_def Let_def)
qed

lemma round_even_nonneg: "0 \<le> x \<Longrightarrow> 0 \<le> round_even x"
proof -
  assume "0 \<le> x"
  then have "0 \<le> \<lfloor>x\<rfloor>" by simp
  then show ?thesis by (simp add: round_even_def Let_def)
qed

lemma float32_zero [simp]: "float32 0 = Fin 0"
  by (simp add: float32_def round_even_def)

lemma float32_nonneg:
  assumes "0 \<le> x"
  shows "fl_nonneg (float32 x)"
proof -
  define q where "q = pow2 (expo32 x - 23)"
  define y where "y = real_of_int (round_even (x / q)) * q"
  have q: "0 < q" by (simp add: q_def)
  have "0 \<le> x / q" using assms q by simp
  then have "0 \<le> round_even (x / q)" by (rule round_even_nonneg)
  then have y: "0 \<le> y" using q by (simp add: y_def)
  have f: "float32 x = (if 2 ^ 128 \<le> \<bar>y\<bar> then (if 0 < x then PInf else NInf) else Fin y)"
    by (simp add: float32_def Let_def q_def y_def)
  show ?thesis
  proof (cases "(2::real) ^ 128 \<le> \<bar>y\<bar>")
    case True
    have "x \<noteq> 0"
    proof
      assume "x = 0"
      then have "y = 0" by (simp add: y_def round_even_def)
      then show False using True by simp
    qed
    then show ?thesis using True f assms by simp
  next
    case False
    then show ?thesis using f y by simp
  qed
qed

lemma keeps_zero_float32: "keeps_zero float32"
  by (simp add: keeps_zero_def)

lemma keeps_zero_exact: "keeps_zero exact"
  by (simp add: keeps_zero_def exact_def)

lemma keeps_sign_float32: "keeps_sign float32"
  by (simp add: keeps_sign_def keeps_zero_def float32_nonneg)

lemma keeps_sign_exact: "keeps_sign exact"
  by (simp add: keeps_sign_def keeps_zero_def exact_def)

lemma float32_eq:
  assumes "- 126 \<le> e" "e \<le> 127" "pow2 e \<le> \<bar>x\<bar>" "\<bar>x\<bar> < pow2 (e + 1)"
    and "(of_int n - 1 / 2) * pow2 (e - 23) < x" "x < (of_int n + 1 / 2) * pow2 (e - 23)"
    and "\<bar>of_int n * pow2 (e - 23)\<bar> < 2 ^ 128"
  shows "float32 x = Fin (of_int n * pow2 (e - 23))"
proof -
  have e: "expo32 x = e" using assms(1-4) by (rule expo32_eq)
  have q: "0 < pow2 (e - 23)" by simp
  have "of_int n - 1 / 2 < x / pow2 (e - 23)"
    using assms(5) q by (simp add: pos_less_divide_eq)
  moreover have "x / pow2 (e - 23) < of_int n + 1 / 2"
    using assms(6) q by (simp add: pos_divide_less_eq)
  ultimately have "round_even (x / pow2 (e - 23)) = n" by (rule round_even_eq)
  then show ?thesis using assms(7) by (simp add: float32_def Let_def e)
qed

lemma float32_sqrt_eq:
  assumes "- 126 \<le> e" "e \<le> 127" "(pow2 e)\<^sup>2 \<le> a" "a < (pow2 (e + 1))\<^sup>2"
    and "0 < n" "((of_int n - 1 / 2) * pow2 (e - 23))\<^sup>2 < a"
    and "a < ((of_int n + 1 / 2) * pow2 (e - 23))\<^sup>2"
    and "\<bar>of_int n * pow2 (e - 23)\<bar> < 2 ^ 128"
  shows "float32 (sqrt a) = Fin (of_int n * pow2 (e - 23))"
proof (rule float32_eq [OF assms(1,2)])
  have a0: "0 \<le> a" using assms(3) by (meson order_trans zero_le_power2)
  show "pow2 e \<le> \<bar>sqrt a\<bar>" using assms(3) a0 by (simp add: real_le_rsqrt)
  have "sqrt a < pow2 (e + 1)" using assms(4) by (intro real_less_lsqrt) simp_all
  then show "\<bar>sqrt a\<bar> < pow2 (e + 1)" using a0 by simp
  show "(of_int n - 1 / 2) * pow2 (e - 23) < sqrt a"
    using assms(6) by (rule real_less_rsqrt)
  have "0 \<le> (real_of_int n + 1 / 2) * pow2 (e - 23)" using assms(5) by simp
  then show "sqrt a < (of_int n + 1 / 2) * pow2 (e - 23)"
    using assms(7) by (intro real_less_lsqrt)
  show "\<bar>of_int n * pow2 (e - 23)\<bar> < 2 ^ 128" by (rule assms(8))
qed

section \<open>Non-negativity and the clamp\<close>

lemma fl_cast_nonneg: "keeps_sign rnd \<Longrightarrow> fl_nonneg x \<Longrightarrow> fl_nonneg (fl_cast rnd x)"
  by (cases x) (simp_all add: keeps_sign_def keeps_zero_def)

lemma fl_sqrt_nonneg: "keeps_sign rnd \<Longrightarrow> fl_greater x (Fin 0) \<Longrightarrow> fl_nonneg (fl_sqrt rnd x)"
  by (cases x) (simp_all add: keeps_sign_def keeps_zero_def)

lemma clamp_entry_nonneg:
  assumes "keeps_sign rnd"
  shows "fl_nonneg (clamp_entry rnd x)"
proof (cases "fl_greater x (Fin 0)")
  case True
  then have "fl_nonneg (fl_sqrt rnd x)" using assms by (intro fl_sqrt_nonneg)
  then show ?thesis using True assms by (simp add: clamp_entry_def fl_cast_nonneg)
next
  case False
  then show ?thesis using assms by (simp add: clamp_entry_def keeps_sign_def keeps_zero_def)
qed

lemma clamp_entry_cases:
  assumes "keeps_sign rnd"
  shows "(fl_greater x (Fin 0) \<longrightarrow> clamp_entry rnd x = fl_cast rnd (fl_sqrt rnd x)) \<and>
         (\<not> fl_greater x (Fin 0) \<longrightarrow> clamp_entry rnd x = Fin 0)"
  using assms by (simp add: clamp_entry_def keeps_sign_def keeps_zero_def)

text \<open>
  C3, as the code has it. Under every rounding that keeps zero and the sign of what is not
  negative (exact arithmetic and binary32 are such), the last step of
  \<^verbatim>\<open>tf_cdist_euclidean\<close> maps every entry of a matrix that is greater than zero to its
  square root in the working precision and every other entry (a negative value, zero,
  NaN) to zero, so that every entry of its result is non-negative. For well-formed
  operands with the same number of columns the Euclidean result is this step applied to
  \<^verbatim>\<open>sqr_sum\<close>, and every entry of it is non-negative. In exact arithmetic, every entry of
  the cosine result whose two rows are finite with a nonzero norm is non-negative.
\<close>

theorem tf_cdist_nonneg:
  assumes "keeps_sign rnd"
    and "wf_tensor left" "wf_tensor right" "ncols left = ncols right"
    and "i < nrows left" "j < nrows right"
  shows "(\<forall>s a b. wf_tensor s \<and> a < nrows s \<and> b < ncols s \<longrightarrow>
            (fl_greater (entry s a b) (Fin 0) \<longrightarrow>
               entry (clamp_sqrt rnd s) a b = fl_cast rnd (fl_sqrt rnd (entry s a b))) \<and>
            (\<not> fl_greater (entry s a b) (Fin 0) \<longrightarrow> entry (clamp_sqrt rnd s) a b = Fin 0) \<and>
            fl_nonneg (entry (clamp_sqrt rnd s) a b)) \<and>
         (\<exists>sqr_sum. euclidean_sqr_sum rnd left right = Inr sqr_sum \<and>
            tf_cdist rnd left right ''euclidean'' = Inr (clamp_sqrt rnd sqr_sum) \<and>
            (fl_greater (entry sqr_sum i j) (Fin 0) \<longrightarrow>
               entry (clamp_sqrt rnd sqr_sum) i j =
                 fl_cast rnd (fl_sqrt rnd (entry sqr_sum i j))) \<and>
            (\<not> fl_greater (entry sqr_sum i j) (Fin 0) \<longrightarrow>
               entry (clamp_sqrt rnd sqr_sum) i j = Fin 0) \<and>
            fl_nonneg (entry (clamp_sqrt rnd sqr_sum) i j)) \<and>
         (all_fin left \<and> all_fin right \<and> sq_norm left i \<noteq> 0 \<and> sq_norm right j \<noteq> 0 \<longrightarrow>
            (\<exists>distance. tf_cdist exact left right ''cosine'' = Inr distance \<and>
               fl_nonneg (entry distance i j)))"
proof (intro conjI)
  show "\<forall>s a b. wf_tensor s \<and> a < nrows s \<and> b < ncols s \<longrightarrow>
            (fl_greater (entry s a b) (Fin 0) \<longrightarrow>
               entry (clamp_sqrt rnd s) a b = fl_cast rnd (fl_sqrt rnd (entry s a b))) \<and>
            (\<not> fl_greater (entry s a b) (Fin 0) \<longrightarrow> entry (clamp_sqrt rnd s) a b = Fin 0) \<and>
            fl_nonneg (entry (clamp_sqrt rnd s) a b)"
    using clamp_entry_cases [OF assms(1)] clamp_entry_nonneg [OF assms(1)]
    by (simp add: clamp_sqrt_entry)
next
  let ?s = "mk_tensor (nrows left) (nrows right)
     (\<lambda>i j. sqr_sum_entry rnd (tf_cast_float32 rnd left) i (tf_cast_float32 rnd right) j)"
  have e: "euclidean_sqr_sum rnd left right = Inr ?s"
    using assms by (intro euclidean_sqr_sum_closed)
  have c: "entry (clamp_sqrt rnd ?s) i j = clamp_entry rnd (entry ?s i j)"
    using assms by (intro clamp_sqrt_entry) simp_all
  show "\<exists>sqr_sum. euclidean_sqr_sum rnd left right = Inr sqr_sum \<and>
            tf_cdist rnd left right ''euclidean'' = Inr (clamp_sqrt rnd sqr_sum) \<and>
            (fl_greater (entry sqr_sum i j) (Fin 0) \<longrightarrow>
               entry (clamp_sqrt rnd sqr_sum) i j =
                 fl_cast rnd (fl_sqrt rnd (entry sqr_sum i j))) \<and>
            (\<not> fl_greater (entry sqr_sum i j) (Fin 0) \<longrightarrow>
               entry (clamp_sqrt rnd sqr_sum) i j = Fin 0) \<and>
            fl_nonneg (entry (clamp_sqrt rnd sqr_sum) i j)"
    using e c clamp_entry_cases [OF assms(1), of "entry ?s i j"]
      clamp_entry_nonneg [OF assms(1), of "entry ?s i j"]
    by (simp add: tf_cdist_def tf_cdist_euclidean_def)
next
  show "all_fin left \<and> all_fin right \<and> sq_norm left i \<noteq> 0 \<and> sq_norm right j \<noteq> 0 \<longrightarrow>
            (\<exists>distance. tf_cdist exact left right ''cosine'' = Inr distance \<and>
               fl_nonneg (entry distance i j))"
    unfolding exact_eq using assms
    by (simp add: tf_cdist_def tf_cdist_cos_closed mk_tensor_entry cos_entry_nonneg)
qed

theorem tf_cdist_nonneg_witness:
  "keeps_sign float32 \<and>
   wf_tensor ex_left \<and> wf_tensor ex_right \<and> ncols ex_left = ncols ex_right \<and>
   1 < nrows ex_left \<and> 0 < nrows ex_right \<and>
   all_fin ex_left \<and> all_fin ex_right \<and> sq_norm ex_left 1 \<noteq> 0 \<and> sq_norm ex_right 0 \<noteq> 0 \<and>
   wf_tensor ex_negative \<and> entry ex_negative 0 0 = Fin (- 1) \<and>
   entry (clamp_sqrt float32 ex_negative) 0 0 = Fin 0 \<and>
   (\<exists>sqr_sum. euclidean_sqr_sum float32 ex_left ex_right = Inr sqr_sum \<and>
      tf_cdist float32 ex_left ex_right ''euclidean'' = Inr (clamp_sqrt float32 sqr_sum) \<and>
      fl_nonneg (entry (clamp_sqrt float32 sqr_sum) 1 0)) \<and>
   (\<exists>distance. tf_cdist exact ex_left ex_right ''cosine'' = Inr distance \<and>
      fl_nonneg (entry distance 1 0))"
proof -
  have h: "wf_tensor ex_left" "wf_tensor ex_right" "ncols ex_left = ncols ex_right"
    "1 < nrows ex_left" "0 < nrows ex_right"
    by (simp_all add: ex_left_def ex_right_def wf_tensor_def)
  have f: "all_fin ex_left" "all_fin ex_right" "sq_norm ex_left 1 \<noteq> 0" "sq_norm ex_right 0 \<noteq> 0"
    by (simp_all add: ex_left_def ex_right_def all_fin_def sq_norm_def entry_def numeral_2_eq_2
        lessThan_Suc)
  have n: "wf_tensor ex_negative" "0 < nrows ex_negative" "0 < ncols ex_negative"
    "entry ex_negative 0 0 = Fin (- 1)"
    by (simp_all add: ex_negative_def wf_tensor_def entry_def)
  note t = tf_cdist_nonneg [OF keeps_sign_float32 h]
  from t have "entry (clamp_sqrt float32 ex_negative) 0 0 = Fin 0" using n by simp
  moreover from t have "\<exists>sqr_sum. euclidean_sqr_sum float32 ex_left ex_right = Inr sqr_sum \<and>
      tf_cdist float32 ex_left ex_right ''euclidean'' = Inr (clamp_sqrt float32 sqr_sum) \<and>
      fl_nonneg (entry (clamp_sqrt float32 sqr_sum) 1 0)" by blast
  moreover from t f have "\<exists>distance. tf_cdist exact ex_left ex_right ''cosine'' = Inr distance \<and>
      fl_nonneg (entry distance 1 0)" by blast
  ultimately show ?thesis using h f n keeps_sign_float32 by simp
qed

section \<open>Zero rows under the cosine metric\<close>

lemma fl_sum_zero_nan:
  assumes "keeps_zero rnd" "\<And>x. x \<in> set xs \<Longrightarrow> x = Fin 0 \<or> x = NaN"
  shows "fl_sum rnd xs = Fin 0 \<or> fl_sum rnd xs = NaN"
  using assms(2)
proof (induction xs)
  case Nil
  then show ?case by simp
next
  case (Cons x xs)
  then have "x = Fin 0 \<or> x = NaN" "fl_sum rnd xs = Fin 0 \<or> fl_sum rnd xs = NaN" by simp_all
  then show ?case using assms(1) by (auto simp: keeps_zero_def)
qed

lemma fl_sum_zero:
  assumes "keeps_zero rnd" "\<And>x. x \<in> set xs \<Longrightarrow> x = Fin 0"
  shows "fl_sum rnd xs = Fin 0"
  using assms(2)
proof (induction xs)
  case Nil
  then show ?case by simp
next
  case (Cons x xs)
  then have "x = Fin 0" "fl_sum rnd xs = Fin 0" by simp_all
  then show ?case using assms(1) by (simp add: keeps_zero_def)
qed

lemma fl_mul_zero_left:
  "keeps_zero rnd \<Longrightarrow> fl_mul rnd (Fin 0) y = Fin 0 \<or> fl_mul rnd (Fin 0) y = NaN"
  by (cases y) (simp_all add: keeps_zero_def)

lemma fl_mul_zero_right:
  "keeps_zero rnd \<Longrightarrow> fl_mul rnd y (Fin 0) = Fin 0 \<or> fl_mul rnd y (Fin 0) = NaN"
  by (cases y) (simp_all add: keeps_zero_def)

lemma zero_rowD: "zero_row t i \<Longrightarrow> k < ncols t \<Longrightarrow> entry t i k = Fin 0"
  by (simp add: zero_row_def list_all_iff)

lemma zero_row_cast:
  assumes "keeps_zero rnd" "wf_tensor t" "i < nrows t" "zero_row t i"
  shows "zero_row (tf_cast_float32 rnd t) i"
proof -
  have "entry (tf_cast_float32 rnd t) i k = Fin 0" if "k < ncols t" for k
    using that assms by (simp add: tf_cast_entry zero_rowD keeps_zero_def)
  then show ?thesis by (simp add: zero_row_def list_all_iff)
qed

lemma cross_zero_left:
  assumes "keeps_zero rnd" "zero_row l i"
  shows "cross rnd l i r j = Fin 0 \<or> cross rnd l i r j = NaN"
  unfolding cross_def
  using fl_mul_zero_left [OF assms(1)]
  by (intro fl_sum_zero_nan [OF assms(1)]) (auto simp: zero_rowD [OF assms(2)])

lemma cross_zero_right:
  assumes "keeps_zero rnd" "zero_row r j" "ncols l = ncols r"
  shows "cross rnd l i r j = Fin 0 \<or> cross rnd l i r j = NaN"
  unfolding cross_def
  using fl_mul_zero_right [OF assms(1)]
  by (intro fl_sum_zero_nan [OF assms(1)]) (auto simp: zero_rowD [OF assms(2)] assms(3))

lemma row_norm_zero:
  assumes "keeps_zero rnd" "zero_row t i"
  shows "row_norm rnd t i = Fin 0"
proof -
  have z: "rnd 0 = Fin 0" using assms(1) by (simp add: keeps_zero_def)
  have "fl_sum rnd (map (\<lambda>k. fl_mul rnd (entry t i k) (entry t i k)) [0..<ncols t]) = Fin 0"
    by (rule fl_sum_zero [OF assms(1)]) (auto simp: zero_rowD [OF assms(2)] z)
  then show ?thesis by (simp add: row_norm_def z)
qed

lemma fl_div_zero_nan: "x = Fin 0 \<or> x = NaN \<Longrightarrow> fl_div rnd x (Fin 0) = NaN"
  by auto

lemma fl_div_keeps_zero_nan:
  "keeps_zero rnd \<Longrightarrow> x = Fin 0 \<or> x = NaN \<Longrightarrow>
   fl_div rnd x y = Fin 0 \<or> fl_div rnd x y = NaN"
  by (cases y) (auto simp: keeps_zero_def)

lemma cos_entry_zero_left:
  assumes "keeps_zero rnd" "zero_row l i"
  shows "cos_entry rnd l i r j = NaN"
proof -
  have "fl_div rnd (cross rnd l i r j) (row_norm rnd l i) = NaN"
    using cross_zero_left [OF assms, of r j]
    by (simp add: row_norm_zero [OF assms] fl_div_zero_nan)
  then show ?thesis by (simp add: cos_entry_def fl_sub_def)
qed

lemma cos_entry_zero_right:
  assumes "keeps_zero rnd" "zero_row r j" "ncols l = ncols r"
  shows "cos_entry rnd l i r j = NaN"
proof -
  have "fl_div rnd (cross rnd l i r j) (row_norm rnd l i) = Fin 0 \<or>
        fl_div rnd (cross rnd l i r j) (row_norm rnd l i) = NaN"
    using cross_zero_right [OF assms, of i] by (rule fl_div_keeps_zero_nan [OF assms(1)])
  then have "fl_div rnd (fl_div rnd (cross rnd l i r j) (row_norm rnd l i)) (row_norm rnd r j) = NaN"
    by (simp add: row_norm_zero [OF assms(1,2)] fl_div_zero_nan)
  then show ?thesis by (simp add: cos_entry_def fl_sub_def)
qed

text \<open>
  C5. Under every rounding that keeps zero (exact arithmetic and binary32 do): when, after
  the cast to the working precision, row \<open>i\<close> of the left operand or row \<open>j\<close> of the
  right operand is the zero vector (as it is when the row of the operand itself is the
  zero vector, and always in exact arithmetic, where the cast changes nothing), and the
  operands have the same number of columns, \<^verbatim>\<open>tf_cdist_cos\<close> does not fail: the norm of
  that row is zero, the division by it is carried out, and the entry \<open>(i, j)\<close> of the
  matrix it returns is NaN.
\<close>

theorem tf_cdist_cos_zero_row:
  assumes "keeps_zero rnd"
    and "ncols left = ncols right" "i < nrows left" "j < nrows right"
    and "zero_row (tf_cast_float32 rnd left) i \<or> zero_row (tf_cast_float32 rnd right) j"
  shows "\<exists>distance. tf_cdist_cos rnd left right = Inr distance \<and>
           (zero_row (tf_cast_float32 rnd left) i \<longrightarrow>
              row_norm rnd (tf_cast_float32 rnd left) i = Fin 0) \<and>
           (zero_row (tf_cast_float32 rnd right) j \<longrightarrow>
              row_norm rnd (tf_cast_float32 rnd right) j = Fin 0) \<and>
           entry distance i j =
             fl_cast rnd
               (fl_sub rnd (Fin 1)
                  (fl_div rnd
                     (fl_div rnd
                        (cross rnd (tf_cast_float32 rnd left) i (tf_cast_float32 rnd right) j)
                        (row_norm rnd (tf_cast_float32 rnd left) i))
                     (row_norm rnd (tf_cast_float32 rnd right) j))) \<and>
           entry distance i j = NaN"
proof -
  let ?l = "tf_cast_float32 rnd left" and ?r = "tf_cast_float32 rnd right"
  have "ncols ?l = ncols ?r" using assms(2) by simp
  then have "cos_entry rnd ?l i ?r j = NaN"
    using assms(1,5) cos_entry_zero_left cos_entry_zero_right by blast
  then show ?thesis
    using assms(1,2,3,4)
    by (auto simp: tf_cdist_cos_closed mk_tensor_entry row_norm_zero cos_entry_def)
qed

theorem tf_cdist_cos_zero_row_witness:
  "keeps_zero float32 \<and>
   ncols ex_zero = ncols ex_right \<and> 0 < nrows ex_zero \<and> 1 < nrows ex_right \<and>
   zero_row ex_zero 0 \<and> zero_row (tf_cast_float32 float32 ex_zero) 0 \<and>
   (\<exists>distance. tf_cdist_cos float32 ex_zero ex_right = Inr distance \<and>
      row_norm float32 (tf_cast_float32 float32 ex_zero) 0 = Fin 0 \<and>
      entry distance 0 1 = NaN)"
proof -
  have h: "ncols ex_zero = ncols ex_right" "0 < nrows ex_zero" "1 < nrows ex_right"
    by (simp_all add: ex_zero_def ex_right_def)
  have z0: "zero_row ex_zero 0"
    by (simp add: zero_row_def ex_zero_def entry_def numeral_2_eq_2)
  have z: "zero_row (tf_cast_float32 float32 ex_zero) 0"
    by (simp add: zero_row_def tf_cast_float32_def ex_zero_def entry_def numeral_2_eq_2)
  then have z': "zero_row (tf_cast_float32 float32 ex_zero) 0 \<or>
                 zero_row (tf_cast_float32 float32 ex_right) 1" by simp
  show ?thesis
    using tf_cdist_cos_zero_row [OF keeps_zero_float32 h z'] h z z0 keeps_zero_float32 by auto
qed

section \<open>The cosine routine in binary32\<close>

lemma mk_tensor_one: "mk_tensor (Suc 0) (Suc 0) f = \<lparr>nrows = 1, ncols = 1, elems = [f 0 0]\<rparr>"
  by (simp add: mk_tensor_def)

lemma tf_cdist_cos_one:
  assumes "nrows l = 1" "nrows r = 1" "ncols l = ncols r"
  shows "tf_cdist_cos rnd l r =
    Inr \<lparr>nrows = 1, ncols = 1,
         elems = [fl_cast rnd (cos_entry rnd (tf_cast_float32 rnd l) 0 (tf_cast_float32 rnd r) 0)]\<rparr>"
  using assms by (simp add: tf_cdist_cos_closed mk_tensor_one)







text \<open>The rows \<^verbatim>\<open>[14, 9]\<close> and \<^verbatim>\<open>[56, 36]\<close>.\<close>

lemma par2_cast:
  "tf_cast_float32 float32 par_left2 = par_left2"
  "tf_cast_float32 float32 par_right2 = par_right2"
  by code_simp+

lemma par2_cross: "cross float32 par_left2 0 par_right2 0 = Fin 1108"
  by code_simp

lemma par2_sums:
  "fl_sum float32 (map (\<lambda>k. fl_mul float32 (entry par_left2 0 k) (entry par_left2 0 k))
     [0..<ncols par_left2]) = Fin 277"
  "fl_sum float32 (map (\<lambda>k. fl_mul float32 (entry par_right2 0 k) (entry par_right2 0 k))
     [0..<ncols par_right2]) = Fin 4432"
  by code_simp+

lemma par2_norms:
  "row_norm float32 par_left2 0 = Fin (8725891 / 524288)"
  "row_norm float32 par_right2 0 = Fin (8725891 / 131072)"
  using float32_sqrt_eq [of 4 277 8725891] float32_sqrt_eq [of 6 4432 8725891]
  by (simp_all add: row_norm_def par2_sums pow2_def power2_eq_square)

lemma par2_quot:
  "fl_cast float32
     (fl_sub float32 (Fin 1)
        (fl_div float32 (fl_div float32 (Fin 1108) (Fin (8725891 / 524288)))
           (Fin (8725891 / 131072)))) = Fin (- (1 / 8388608))"
  by code_simp

lemma par2_result:
  "tf_cdist_cos float32 par_left2 par_right2 =
     Inr \<lparr>nrows = 1, ncols = 1, elems = [Fin (- (1 / 8388608))]\<rparr>"
proof -
  have s: "nrows par_left2 = 1" "nrows par_right2 = 1" "ncols par_left2 = ncols par_right2"
    by (simp_all add: par_left2_def par_right2_def)
  show ?thesis
    unfolding tf_cdist_cos_one [OF s] par2_cast cos_entry_def par2_cross par2_norms par2_quot ..
qed

text \<open>The rows \<^verbatim>\<open>[3, 5]\<close> and \<^verbatim>\<open>[6, 10]\<close>.\<close>

lemma par3_cast:
  "tf_cast_float32 float32 par_left3 = par_left3"
  "tf_cast_float32 float32 par_right3 = par_right3"
  by code_simp+

lemma par3_cross: "cross float32 par_left3 0 par_right3 0 = Fin 68"
  by code_simp

lemma par3_sums:
  "fl_sum float32 (map (\<lambda>k. fl_mul float32 (entry par_left3 0 k) (entry par_left3 0 k))
     [0..<ncols par_left3]) = Fin 34"
  "fl_sum float32 (map (\<lambda>k. fl_mul float32 (entry par_right3 0 k) (entry par_right3 0 k))
     [0..<ncols par_right3]) = Fin 136"
  by code_simp+

lemma par3_norms:
  "row_norm float32 par_left3 0 = Fin (1528549 / 262144)"
  "row_norm float32 par_right3 0 = Fin (1528549 / 131072)"
  using float32_sqrt_eq [of 2 34 12228392] float32_sqrt_eq [of 3 136 12228392]
  by (simp_all add: row_norm_def par3_sums pow2_def power2_eq_square)

lemma par3_quot:
  "fl_cast float32
     (fl_sub float32 (Fin 1)
        (fl_div float32 (fl_div float32 (Fin 68) (Fin (1528549 / 262144)))
           (Fin (1528549 / 131072)))) = Fin (- (1 / 8388608))"
  by code_simp

lemma par3_result:
  "tf_cdist_cos float32 par_left3 par_right3 =
     Inr \<lparr>nrows = 1, ncols = 1, elems = [Fin (- (1 / 8388608))]\<rparr>"
proof -
  have s: "nrows par_left3 = 1" "nrows par_right3 = 1" "ncols par_left3 = ncols par_right3"
    by (simp_all add: par_left3_def par_right3_def)
  show ?thesis
    unfolding tf_cdist_cos_one [OF s] par3_cast cos_entry_def par3_cross par3_norms par3_quot ..
qed

lemma par_facts:
  "wf_tensor par_left1" "wf_tensor par_right1" "all_fin par_left1" "all_fin par_right1"
  "wf_tensor par_left2" "wf_tensor par_right2" "all_fin par_left2" "all_fin par_right2"
  "wf_tensor par_left3" "wf_tensor par_right3" "all_fin par_left3" "all_fin par_right3"
  by (simp_all add: par_left1_def par_right1_def par_left2_def par_right2_def
      par_left3_def par_right3_def wf_tensor_def all_fin_def)

lemma par_values:
  "sq_norm par_left1 0 = 2" "sq_norm par_right1 0 = 18" "dot par_left1 0 par_right1 0 = 6"
  "sq_norm par_left2 0 = 277" "sq_norm par_right2 0 = 4432"
  "sq_norm par_left3 0 = 34" "sq_norm par_right3 0 = 136"
  by (simp_all add: sq_norm_def dot_def par_left1_def par_right1_def par_left2_def
      par_right2_def par_left3_def par_right3_def entry_def numeral_2_eq_2 lessThan_Suc)



text \<open>
  The claim C10 as the specification states it does not hold of the routine in binary32:
  for the rows \<^verbatim>\<open>[14, 9]\<close> and \<^verbatim>\<open>[56, 36]\<close>, which have nonzero norms, the routine returns
  \<open>- 2\<^sup>-\<^sup>2\<^sup>3\<close>, a value below 0.
\<close>

theorem tf_cdist_cos_range_counterexample:
  "wf_tensor par_left2 \<and> wf_tensor par_right2 \<and> all_fin par_left2 \<and> all_fin par_right2 \<and>
   ncols par_left2 = ncols par_right2 \<and>
   sq_norm par_left2 0 \<noteq> 0 \<and> sq_norm par_right2 0 \<noteq> 0 \<and>
   tf_cdist_cos float32 par_left2 par_right2 =
     Inr \<lparr>nrows = 1, ncols = 1, elems = [Fin (- (1 / 8388608))]\<rparr> \<and>
   entry \<lparr>nrows = 1, ncols = 1, elems = [Fin (- (1 / 8388608))]\<rparr> 0 0 = Fin (- (1 / 8388608)) \<and>
   - (1 / 8388608) < (0::real)"
  using par2_result par_facts(5-8)
  by (simp add: par_values entry_def) (simp add: par_left2_def par_right2_def)

text \<open>
  The claim C3 as the specification states it does not hold of the cosine routine in
  binary32: for the rows \<^verbatim>\<open>[3, 5]\<close> and \<^verbatim>\<open>[6, 10]\<close>, which have nonzero norms, the entry of
  the result is negative.
\<close>

theorem tf_cdist_nonneg_counterexample:
  "wf_tensor par_left3 \<and> wf_tensor par_right3 \<and> all_fin par_left3 \<and> all_fin par_right3 \<and>
   ncols par_left3 = ncols par_right3 \<and>
   sq_norm par_left3 0 \<noteq> 0 \<and> sq_norm par_right3 0 \<noteq> 0 \<and>
   tf_cdist float32 par_left3 par_right3 ''cosine'' =
     Inr \<lparr>nrows = 1, ncols = 1, elems = [Fin (- (1 / 8388608))]\<rparr> \<and>
   \<not> fl_nonneg (entry \<lparr>nrows = 1, ncols = 1, elems = [Fin (- (1 / 8388608))]\<rparr> 0 0)"
  using par3_result par_facts(9-12)
  by (simp add: par_values entry_def tf_cdist_def) (simp add: par_left3_def par_right3_def)

section \<open>Self-comparison in binary32\<close>

lemma mk_tensor_two:
  "mk_tensor 2 2 f = \<lparr>nrows = 2, ncols = 2, elems = [f 0 0, f 0 1, f 1 0, f 1 1]\<rparr>"
proof -
  have "[0..<2 * 2] = [0, 1, 2, Suc 2]" by (simp add: upt_rec)
  then show ?thesis by (simp add: mk_tensor_def)
qed

lemma two_points_cast: "tf_cast_float32 float32 two_points = two_points"
  by code_simp

lemma two_points_entries:
  "sqr_sum_entry float32 two_points 0 two_points 0 = Fin 0"
  "sqr_sum_entry float32 two_points 0 two_points 1 = Fin 16129"
  "sqr_sum_entry float32 two_points 1 two_points 0 = Fin 16128"
  "sqr_sum_entry float32 two_points 1 two_points 1 = Fin 0"
  by code_simp+

lemma two_points_facts: "wf_tensor two_points" "nrows two_points = 2"
  by (simp_all add: two_points_def wf_tensor_def)

lemma two_points_sqr_sum:
  "euclidean_sqr_sum float32 two_points two_points =
     Inr \<lparr>nrows = 2, ncols = 2, elems = [Fin 0, Fin 16129, Fin 16128, Fin 0]\<rparr>"
proof -
  have "euclidean_sqr_sum float32 two_points two_points =
          Inr (mk_tensor 2 2 (\<lambda>i j. sqr_sum_entry float32 two_points i two_points j))"
    using euclidean_sqr_sum_closed [OF two_points_facts(1) two_points_facts(1) refl, of float32]
    by (simp only: two_points_cast two_points_facts(2))
  then show ?thesis by (simp only: mk_tensor_two two_points_entries)
qed

lemma two_points_sqrt:
  "float32 (sqrt 16129) = Fin 127" "float32 (sqrt 16128) = Fin (4161407 / 32768)"
  using float32_sqrt_eq [of 6 16129 16646144] float32_sqrt_eq [of 6 16128 16645628]
  by (simp_all add: pow2_def power2_eq_square)

lemma two_points_round:
  "float32 127 = Fin 127" "float32 (4161407 / 32768) = Fin (4161407 / 32768)"
  by code_simp+

lemma two_points_clamp:
  "clamp_entry float32 (Fin 0) = Fin 0"
  "clamp_entry float32 (Fin 16129) = Fin 127"
  "clamp_entry float32 (Fin 16128) = Fin (4161407 / 32768)"
  by (simp_all add: clamp_entry_def two_points_sqrt two_points_round)

text \<open>
  The claim C8 as the specification states it does not hold of the routine in binary32:
  for the matrix of the two points 4098 and 3971 (one column), whose squares and product
  are values of the format, \<^verbatim>\<open>sqr_sum\<close> is 16129 at \<open>(0, 1)\<close> and 16128 at \<open>(1, 0)\<close>, and
  the entries of the result at these two places differ.
\<close>

theorem tf_cdist_euclidean_self_counterexample:
  "wf_tensor two_points \<and>
   tf_cdist float32 two_points two_points ''euclidean'' =
     Inr \<lparr>nrows = 2, ncols = 2, elems = [Fin 0, Fin 127, Fin (4161407 / 32768), Fin 0]\<rparr> \<and>
   entry \<lparr>nrows = 2, ncols = 2, elems = [Fin 0, Fin 127, Fin (4161407 / 32768), Fin 0]\<rparr> 0 1 \<noteq>
   entry \<lparr>nrows = 2, ncols = 2, elems = [Fin 0, Fin 127, Fin (4161407 / 32768), Fin 0]\<rparr> 1 0"
  by (simp add: tf_cdist_def tf_cdist_euclidean_def two_points_sqr_sum clamp_sqrt_map
      two_points_clamp two_points_facts entry_def)

end
